theory Spec2Isabelle
  imports Complex_Main "HOL-Library.AList" "HOL-Library.Product_Lexorder"
    "HOL-Library.Multiset"
begin

section \<open>Python values\<close>

text \<open>
  A Python float: a finite value, the two infinities, or NaN. Finite values are kept as
  rationals and a signed zero is the rational 0. The rounding of a decimal literal or of
  an arithmetic result to a double is not part of the model; the rounding of an integer
  that is stored as a double is (\<open>round_double\<close> below).
\<close>

datatype pyfloat = Finite rat | PosInf | NegInf | NaN

text \<open>
  A number passed by a caller: a Python (or numpy) integer, or a float. An integer that
  ends up in an array of doubles is taken to lie in the range of numpy's 64-bit integers.
\<close>

datatype pynum = PyInt int | PyFloat pyfloat

text \<open>
  Exceptions: the class and the argument tuple. The arguments of exceptions raised by the
  interpreter and by the libraries (their messages) are not modelled and left empty.
\<close>

datatype exn_class = StopIteration | ValueError | IndexError | OverflowError

datatype pyarg = Str string | StrList "string list"

datatype exn = Exn exn_class "pyarg list"

text \<open>The element type of a numpy array or scipy matrix, with its width in bits.\<close>

datatype dtype = Bool | SignedInt nat | UnsignedInt nat | Floating nat
  | ComplexFloating nat | Object

text \<open>
  A scipy sparse matrix: its dtype, its shape and its explicitly stored entries, in storage
  order. An entry that was never assigned is not in the list; an assigned zero is. The
  model covers matrices that store at most one entry per cell.
\<close>

record matrix =
  dtype :: dtype
  shape :: "nat \<times> nat"
  stored :: "((nat \<times> nat) \<times> pyfloat) list"

section \<open>flagser.py\<close>

text \<open>
  Modelled from the spec: \<open>implemented_filtrations\<close> is imported from the compiled
  binding \<open>flagser_pybind\<close>, which is not among the source files. The spec gives the
  registry as exactly these eleven names; the docstrings of \<open>flagser_static\<close> and
  \<open>flagser_persistence\<close> list the same names in this order.
\<close>

definition implemented_filtrations :: "string list" where
  "implemented_filtrations =
     [''dimension'', ''zero'', ''max'', ''max3'', ''max_plus_one'', ''product'', ''sum'',
      ''pmean'', ''pmoment'', ''remove_edges'', ''vertex_degree'']"

text \<open>The arguments of one call of \<open>compute_homology\<close>, in the order the source passes them.\<close>

record engine_call =
  call_vertices :: "pyfloat list"
  call_edges :: "(nat \<times> nat \<times> pyfloat) list"
  call_min_dimension :: pynum
  call_max_dimension :: pynum
  call_directed :: bool
  call_coeff :: pynum
  call_approximation :: pynum
  call_filtration :: string

text \<open>One element of the list \<open>compute_homology\<close> returns, read through its four getters.\<close>

record homology =
  get_persistence_diagram :: "(pyfloat \<times> pyfloat) list list"
  get_cell_count :: "int list"
  get_betti_numbers :: "int list"
  get_euler_characteristic :: int

text \<open>The dictionary \<open>out\<close> both functions return: its four keys.\<close>

record out =
  dgms :: "(pyfloat \<times> pyfloat) list list"
  cell_count :: "int list"
  betti :: "int list"
  euler :: int

text \<open>\<open>x == np.inf\<close> for a number \<open>x\<close>.\<close>

fun eq_np_inf :: "pynum \<Rightarrow> bool" where
  "eq_np_inf (PyFloat PosInf) = True"
| "eq_np_inf _ = False"

text \<open>
  \<open>np.issubdtype(dt, np.integer)\<close>, \<open>np.issubdtype(dt, np.float)\<close> and
  \<open>np.iinfo(dt).max\<close>. The numpy releases that still have the alias \<open>np.float\<close> and
  already have the \<open>posinf\<close> argument of \<open>nan_to_num\<close> read the Python type \<open>float\<close>
  in \<open>issubdtype\<close> as the abstract class of all floating-point types.
\<close>

fun issubdtype_integer :: "dtype \<Rightarrow> bool" where
  "issubdtype_integer (SignedInt b) = True"
| "issubdtype_integer (UnsignedInt b) = True"
| "issubdtype_integer _ = False"

fun issubdtype_float :: "dtype \<Rightarrow> bool" where
  "issubdtype_float (Floating b) = True"
| "issubdtype_float _ = False"

fun iinfo_max :: "dtype \<Rightarrow> int" where
  "iinfo_max (SignedInt b) = 2 ^ (b - 1) - 1"
| "iinfo_max (UnsignedInt b) = 2 ^ b - 1"
| "iinfo_max _ = 0"

text \<open>
  The first block of \<open>flagser_persistence\<close> (lines 214 to 223): the value bound to
  \<open>_max_edge_length\<close>. \<open>iinfo_max\<close> is only reached for an integer dtype.
\<close>

definition resolve_max_edge_length :: "pynum option \<Rightarrow> dtype \<Rightarrow> pynum option" where
  "resolve_max_edge_length max_edge_length dt =
     (case max_edge_length of
        None \<Rightarrow>
          (if issubdtype_integer dt then Some (PyInt (iinfo_max dt))
           else if issubdtype_float dt then Some (PyFloat PosInf)
           else None)
      | Some m \<Rightarrow> Some m)"

text \<open>
  The double nearest to an integer, as the conversion of an integer to a 64-bit float
  gives it: \<open>bits m\<close> is the number of binary digits of \<open>m\<close>; an integer of more than
  53 digits keeps its 53 leading digits, rounded to nearest, a tie going to the even
  neighbour.
\<close>

fun bits :: "nat \<Rightarrow> nat" where
  "bits n = (if n = 0 then 0 else Suc (bits (n div 2)))"

declare bits.simps [simp del]

definition round_double :: "int \<Rightarrow> int" where
  "round_double n =
     (let m = nat \<bar>n\<bar>;
          e = bits m - 53;
          q = m div 2 ^ e;
          r = m mod 2 ^ e;
          q' = (if 2 ^ e < 2 * r \<or> (2 * r = 2 ^ e \<and> odd q) then q + 1 else q)
      in sgn n * int (q' * 2 ^ e))"

text \<open>
  \<open>np.nan_to_num(x, posinf=p)\<close> on one element of an array of doubles: NaN becomes 0,
  positive infinity becomes \<open>p\<close> (the largest finite double when \<open>p\<close> is \<open>None\<close>),
  negative infinity becomes the most negative finite double. The array holds doubles, so
  an integer \<open>p\<close> is stored as the double nearest to it.
\<close>

definition float_max :: rat where
  "float_max = (2 ^ 53 - 1) * 2 ^ 971"

fun as_float :: "pynum \<Rightarrow> pyfloat" where
  "as_float (PyInt n) = Finite (of_int (round_double n))"
| "as_float (PyFloat x) = x"

fun nan_to_num :: "pynum option \<Rightarrow> pyfloat \<Rightarrow> pyfloat" where
  "nan_to_num posinf NaN = Finite 0"
| "nan_to_num posinf PosInf =
     (case posinf of None \<Rightarrow> Finite float_max | Some p \<Rightarrow> as_float p)"
| "nan_to_num posinf NegInf = Finite (- float_max)"
| "nan_to_num posinf (Finite q) = Finite q"

definition nan_to_num_dgm ::
  "pynum option \<Rightarrow> (pyfloat \<times> pyfloat) list \<Rightarrow> (pyfloat \<times> pyfloat) list" where
  "nan_to_num_dgm posinf dgm = map (\<lambda>(b, d). (nan_to_num posinf b, nan_to_num posinf d)) dgm"

text \<open>
  The exception of lines 101 and 236: a \<open>ValueError\<close> with two arguments, the message and
  the registry.
\<close>

definition filtration_error :: exn where
  "filtration_error =
     Exn ValueError
       [Str ''Filtration not recongnized. Available filtrations are '',
        StrList implemented_filtrations]"

text \<open>
  \<open>flagser_static\<close>. The two collaborators that are not among the source files are
  parameters: \<open>extract\<close> is \<open>_extract_static_weights\<close> and \<open>compute\<close> is
  \<open>compute_homology\<close>; either may raise. The result is paired with the list of engine
  calls the function made.
\<close>

definition flagser_static ::
  "(matrix \<Rightarrow> exn + pyfloat list \<times> (nat \<times> nat \<times> pyfloat) list) \<Rightarrow>
   (engine_call \<Rightarrow> exn + homology list) \<Rightarrow>
   matrix \<Rightarrow> pynum \<Rightarrow> pynum \<Rightarrow> bool \<Rightarrow> string \<Rightarrow> pynum \<Rightarrow> pynum option \<Rightarrow>
   (exn + out) \<times> engine_call list" where
  "flagser_static extract compute flag_matrix min_dimension max_dimension directed
       filtration coeff approximation =
     (let max_dimension' = (if eq_np_inf max_dimension then PyInt (- 1) else max_dimension);
          approximation' = (case approximation of None \<Rightarrow> PyInt (- 1) | Some a \<Rightarrow> a)
      in if filtration \<notin> set implemented_filtrations then (Inl filtration_error, [])
         else
           (case extract flag_matrix of
              Inl e \<Rightarrow> (Inl e, [])
            | Inr (vertices, edges) \<Rightarrow>
                (let call = \<lparr>call_vertices = vertices, call_edges = edges,
                              call_min_dimension = min_dimension,
                              call_max_dimension = max_dimension',
                              call_directed = directed, call_coeff = coeff,
                              call_approximation = approximation',
                              call_filtration = filtration\<rparr>
                 in case compute call of
                      Inl e \<Rightarrow> (Inl e, [call])
                    | Inr [] \<Rightarrow> (Inl (Exn IndexError []), [call])
                    | Inr (h # _) \<Rightarrow>
                        (Inr \<lparr>dgms = get_persistence_diagram h,
                              cell_count = get_cell_count h,
                              betti = get_betti_numbers h,
                              euler = get_euler_characteristic h\<rparr>, [call]))))"

text \<open>
  \<open>flagser_persistence\<close>. Here \<open>extract\<close> is \<open>_extract_persistence_weights\<close>, which
  also receives the resolved \<open>_max_edge_length\<close>.
\<close>

definition flagser_persistence ::
  "(matrix \<Rightarrow> pynum option \<Rightarrow> exn + pyfloat list \<times> (nat \<times> nat \<times> pyfloat) list) \<Rightarrow>
   (engine_call \<Rightarrow> exn + homology list) \<Rightarrow>
   matrix \<Rightarrow> pynum option \<Rightarrow> pynum \<Rightarrow> pynum \<Rightarrow> bool \<Rightarrow> string \<Rightarrow> pynum \<Rightarrow>
   pynum option \<Rightarrow> (exn + out) \<times> engine_call list" where
  "flagser_persistence extract compute flag_matrix max_edge_length min_dimension
       max_dimension directed filtration coeff approximation =
     (let max_edge_length' = resolve_max_edge_length max_edge_length (dtype flag_matrix);
          max_dimension' = (if eq_np_inf max_dimension then PyInt (- 1) else max_dimension);
          approximation' = (case approximation of None \<Rightarrow> PyInt (- 1) | Some a \<Rightarrow> a)
      in if filtration \<notin> set implemented_filtrations then (Inl filtration_error, [])
         else
           (case extract flag_matrix max_edge_length' of
              Inl e \<Rightarrow> (Inl e, [])
            | Inr (vertices, edges) \<Rightarrow>
                (let call = \<lparr>call_vertices = vertices, call_edges = edges,
                              call_min_dimension = min_dimension,
                              call_max_dimension = max_dimension',
                              call_directed = directed, call_coeff = coeff,
                              call_approximation = approximation',
                              call_filtration = filtration\<rparr>
                 in case compute call of
                      Inl e \<Rightarrow> (Inl e, [call])
                    | Inr [] \<Rightarrow> (Inl (Exn IndexError []), [call])
                    | Inr (h # _) \<Rightarrow>
                        (Inr \<lparr>dgms = map (nan_to_num_dgm max_edge_length')
                                       (get_persistence_diagram h),
                              cell_count = get_cell_count h,
                              betti = get_betti_numbers h,
                              euler = get_euler_characteristic h\<rparr>, [call]))))"

text \<open>
  Whether an exception shows a given string to its reader: the string occurs inside a
  string argument, or is an element of a list argument.
\<close>

fun occurs_in :: "string \<Rightarrow> string \<Rightarrow> bool" where
  "occurs_in s [] = (s = [])"
| "occurs_in s (c # cs) = (take (length s) (c # cs) = s \<or> occurs_in s cs)"

fun arg_mentions :: "string \<Rightarrow> pyarg \<Rightarrow> bool" where
  "arg_mentions s (Str t) = occurs_in s t"
| "arg_mentions s (StrList ts) = (s \<in> set ts)"

fun mentions :: "exn \<Rightarrow> string \<Rightarrow> bool" where
  "mentions (Exn c args) s = list_ex (arg_mentions s) args"

section \<open>flagio.py\<close>

subsection \<open>Strings and conversions\<close>

text \<open>
  A text file is the list of its lines, and a character is a code point below 256 (text
  with code points beyond U+00FF is outside the model). \<open>str.strip()\<close> removes the
  white space at both ends of a line, its line terminator included: the code points for
  which \<open>str.isspace\<close> holds, which below 256 are U+0009 to U+000D, U+001C to U+0020,
  U+0085 and U+00A0. \<open>str.split(' ')\<close> cuts at every single blank, so it returns at
  least one token and two adjacent blanks give an empty token.
\<close>

definition is_space :: "char \<Rightarrow> bool" where
  "is_space c =
     (c \<in> set [CHR '' '', CHR 0x09, CHR 0x0A, CHR 0x0B, CHR 0x0C, CHR 0x0D,
                CHR 0x1C, CHR 0x1D, CHR 0x1E, CHR 0x1F, CHR 0x85, CHR 0xA0])"

definition strip :: "string \<Rightarrow> string" where
  "strip s = rev (dropWhile is_space (rev (dropWhile is_space s)))"

fun split_sp :: "string \<Rightarrow> string list" where
  "split_sp [] = [[]]"
| "split_sp (c # cs) =
     (if c = CHR '' '' then [] # split_sp cs
      else (case split_sp cs of [] \<Rightarrow> [[c]] | w # ws \<Rightarrow> (c # w) # ws))"

text \<open>
  \<open>float(s)\<close> for a string: the white space around the literal is ignored, the empty
  string is refused, and the literal is read by \<open>lit\<close>, Python's grammar of float
  literals, which is a parameter of the model (\<open>None\<close> for a string that is not a
  number).
\<close>

definition py_float :: "(string \<Rightarrow> pyfloat option) \<Rightarrow> string \<Rightarrow> exn + pyfloat" where
  "py_float lit s =
     (let t = strip s
      in if t = [] then Inl (Exn ValueError [])
         else (case lit t of None \<Rightarrow> Inl (Exn ValueError []) | Some x \<Rightarrow> Inr x))"

text \<open>\<open>int(x)\<close> for a float: truncation towards zero; NaN and the infinities are refused.\<close>

fun py_int :: "pyfloat \<Rightarrow> exn + int" where
  "py_int (Finite q) = Inr (if 0 \<le> q then \<lfloor>q\<rfloor> else \<lceil>q\<rceil>)"
| "py_int NaN = Inl (Exn ValueError [])"
| "py_int PosInf = Inl (Exn OverflowError [])"
| "py_int NegInf = Inl (Exn OverflowError [])"

text \<open>\<open>xs[i]\<close> for a list and an index that is not negative.\<close>

definition getitem :: "'a list \<Rightarrow> nat \<Rightarrow> exn + 'a" where
  "getitem xs i = (if i < length xs then Inr (xs ! i) else Inl (Exn IndexError []))"

text \<open>\<open>list(map(f, xs))\<close> where \<open>f\<close> may raise: the first exception ends the traversal.\<close>

fun map_exn :: "('a \<Rightarrow> exn + 'b) \<Rightarrow> 'a list \<Rightarrow> exn + 'b list" where
  "map_exn f [] = Inr []"
| "map_exn f (x # xs) =
     (case f x of
        Inl e \<Rightarrow> Inl e
      | Inr y \<Rightarrow> (case map_exn f xs of Inl e \<Rightarrow> Inl e | Inr ys \<Rightarrow> Inr (y # ys)))"

subsection \<open>The operations of scipy.sparse that the module uses\<close>

text \<open>\<open>sp.csr_matrix((m, n), dtype=None)\<close>: an empty matrix of 64-bit floats.\<close>

definition csr_matrix :: "nat \<times> nat \<Rightarrow> matrix" where
  "csr_matrix sh = \<lparr>dtype = Floating 64, shape = sh, stored = []\<rparr>"

text \<open>
  \<open>A.setdiag(values)\<close>: the cells \<open>(i, i)\<close> are assigned \<open>values[i]\<close>, as far as the
  shape and the values reach. A zero is stored like any other value.
\<close>

definition setdiag :: "matrix \<Rightarrow> pyfloat list \<Rightarrow> matrix" where
  "setdiag A vs =
     A\<lparr>stored :=
          fold (\<lambda>(i, v). AList.update (i, i) v)
            (enumerate 0 (take (min (fst (shape A)) (snd (shape A))) vs)) (stored A)\<rparr>"

text \<open>
  \<open>A[r, c] = x\<close> for integers \<open>r\<close> and \<open>c\<close> and a float matrix: an index below
  \<open>-n\<close> or from \<open>n\<close> on raises \<open>IndexError\<close>, a negative index counts from the end,
  and the value is stored in the cell, replacing the value stored there or adding a new
  entry. A zero is stored too.
\<close>

definition wrap_index :: "nat \<Rightarrow> int \<Rightarrow> nat" where
  "wrap_index n r = nat (if r < 0 then r + int n else r)"

definition setitem :: "matrix \<Rightarrow> int \<Rightarrow> int \<Rightarrow> pyfloat \<Rightarrow> exn + matrix" where
  "setitem A r c x =
     (if r < - int (fst (shape A)) \<or> int (fst (shape A)) \<le> r then Inl (Exn IndexError [])
      else if c < - int (snd (shape A)) \<or> int (snd (shape A)) \<le> c then Inl (Exn IndexError [])
      else Inr (A\<lparr>stored :=
                    AList.update (wrap_index (fst (shape A)) r, wrap_index (snd (shape A)) c) x
                      (stored A)\<rparr>))"

text \<open>\<open>A.diagonal()\<close>: the stored value of each diagonal cell, 0 where none is stored.\<close>

definition diagonal :: "matrix \<Rightarrow> pyfloat list" where
  "diagonal A =
     map (\<lambda>i. case map_of (stored A) (i, i) of None \<Rightarrow> Finite 0 | Some v \<Rightarrow> v)
       [0 ..< min (fst (shape A)) (snd (shape A))]"

text \<open>
  \<open>sp.find(A)\<close>: the matrix is copied into coordinate format, its entries are brought
  into canonical order by \<open>sum_duplicates\<close> (a stable sort by column, then by row, in
  the scipy releases that go with the numpy alias \<open>np.float\<close>), and the entries whose
  value is 0 are dropped, explicitly stored zeros as well. The cells on the diagonal are
  entries like the others. With at most one stored entry per cell there are no
  duplicates to add up.
\<close>

definition col_row :: "(nat \<times> nat) \<times> pyfloat \<Rightarrow> nat \<times> nat" where
  "col_row e = (snd (fst e), fst (fst e))"

definition sp_find :: "matrix \<Rightarrow> ((nat \<times> nat) \<times> pyfloat) list" where
  "sp_find A = filter (\<lambda>e. snd e \<noteq> Finite 0) (sort_key col_row (stored A))"

subsection \<open>loadflag\<close>

text \<open>
  The three expressions of the assignment in the loop body (lines 52 and 53), in Python's
  order of evaluation: the right-hand side \<open>float(edge[2])\<close> first, then the two
  subscripts.
\<close>

definition read_edge ::
  "(string \<Rightarrow> pyfloat option) \<Rightarrow> string \<Rightarrow> exn + int \<times> int \<times> pyfloat" where
  "read_edge lit line =
     (let edge = split_sp (strip line)
      in case getitem edge 2 of Inl e \<Rightarrow> Inl e | Inr e2 \<Rightarrow>
         (case py_float lit e2 of Inl e \<Rightarrow> Inl e | Inr w \<Rightarrow>
         (case getitem edge 0 of Inl e \<Rightarrow> Inl e | Inr e0 \<Rightarrow>
         (case py_float lit e0 of Inl e \<Rightarrow> Inl e | Inr x0 \<Rightarrow>
         (case py_int x0 of Inl e \<Rightarrow> Inl e | Inr r \<Rightarrow>
         (case getitem edge 1 of Inl e \<Rightarrow> Inl e | Inr e1 \<Rightarrow>
         (case py_float lit e1 of Inl e \<Rightarrow> Inl e | Inr x1 \<Rightarrow>
         (case py_int x1 of Inl e \<Rightarrow> Inl e | Inr c \<Rightarrow> Inr (r, c, w)))))))))"

text \<open>The loop of lines 50 to 53 over the remaining lines.\<close>

fun load_edges ::
  "(string \<Rightarrow> pyfloat option) \<Rightarrow> matrix \<Rightarrow> string list \<Rightarrow> exn + matrix" where
  "load_edges lit A [] = Inr A"
| "load_edges lit A (line # lines) =
     (case read_edge lit line of
        Inl e \<Rightarrow> Inl e
      | Inr (r, c, w) \<Rightarrow>
          (case setitem A r c w of Inl e \<Rightarrow> Inl e | Inr A' \<Rightarrow> load_edges lit A' lines))"

text \<open>
  \<open>loadflag(fname)\<close> with the default \<open>fmt='csr'\<close> and \<open>dtype=None\<close>, on the lines of
  the file: \<open>next(f)\<close> raises \<open>StopIteration\<close> on an empty file, \<open>f.readline()\<close> returns
  the empty string at the end of the file, and \<open>f.readlines()[1:]\<close> passes over one more
  line. With the default format \<open>asformat\<close> returns the matrix as it is.
\<close>

definition readline :: "string list \<Rightarrow> string" where
  "readline f = (case f of [] \<Rightarrow> [] | l # _ \<Rightarrow> l)"

definition loadflag :: "(string \<Rightarrow> pyfloat option) \<Rightarrow> string list \<Rightarrow> exn + matrix" where
  "loadflag lit f =
     (case f of
        [] \<Rightarrow> Inl (Exn StopIteration [])
      | _ # f1 \<Rightarrow>
          (let line = strip (readline f1)
           in case map_exn (py_float lit) (split_sp line) of
                Inl e \<Rightarrow> Inl e
              | Inr vertices \<Rightarrow>
                  load_edges lit
                    (setdiag (csr_matrix (length vertices, length vertices)) vertices)
                    (drop 1 (drop 1 f1))))"

subsection \<open>saveflag\<close>

text \<open>\<open>'%i' % n\<close> for an index, and \<open>' '.join\<close>.\<close>

fun fmt_i :: "nat \<Rightarrow> string" where
  "fmt_i n =
     (if n < 10 then [''0123456789'' ! n]
      else fmt_i (n div 10) @ [''0123456789'' ! (n mod 10)])"

fun join_sp :: "string list \<Rightarrow> string" where
  "join_sp [] = []"
| "join_sp [x] = x"
| "join_sp (x # y # ys) = x @ '' '' @ join_sp (y # ys)"

text \<open>
  \<open>saveflag(fname, flag_matrix)\<close>: the lines written to the file. \<open>fmt_e\<close> is the
  conversion \<open>'%.18e'\<close> of a float, a parameter of the model. Each call of \<open>np.savetxt\<close>
  writes its header and one line per row of its array: the diagonal as a single row, then
  the rows \<open>(row, column, value)\<close> of \<open>sp.find\<close>, cut to two columns for a Boolean
  matrix.
\<close>

definition saveflag :: "(pyfloat \<Rightarrow> string) \<Rightarrow> matrix \<Rightarrow> string list" where
  "saveflag fmt_e flag_matrix =
     [''dim 0'', join_sp (map fmt_e (diagonal flag_matrix))] @
     (if dtype flag_matrix = Bool
      then ''dim 1'' # map (\<lambda>e. fmt_i (fst (fst e)) @ '' '' @ fmt_i (snd (fst e)))
                         (sp_find flag_matrix)
      else ''dim 1'' # map (\<lambda>e. fmt_i (fst (fst e)) @ '' '' @ fmt_i (snd (fst e)) @ '' '' @
                               fmt_e (snd e))
                         (sp_find flag_matrix))"

subsection \<open>Sample conversions\<close>

text \<open>
  Excerpts of the two conversions the model takes as parameters, enough to run it on the
  example files below: some literals \<open>float\<close> reads, and the \<open>'%.18e'\<close> form of four
  values.
\<close>

definition lit_sample :: "string \<Rightarrow> pyfloat option" where
  "lit_sample =
     map_of
       [(''0'', Finite 0), (''1'', Finite 1), (''2'', Finite 2), (''-1'', Finite (- 1)),
        (''1.0'', Finite 1), (''2.0'', Finite 2), (''3.0'', Finite 3), (''5.0'', Finite 5),
        (''0.0'', Finite 0),
        (''0.000000000000000000e+00'', Finite 0),
        (''1.000000000000000000e+00'', Finite 1),
        (''2.000000000000000000e+00'', Finite 2),
        (''5.000000000000000000e+00'', Finite 5)]"

definition fmt_e_sample :: "pyfloat \<Rightarrow> string" where
  "fmt_e_sample x =
     (if x = Finite 0 then ''0.000000000000000000e+00''
      else if x = Finite 1 then ''1.000000000000000000e+00''
      else if x = Finite 2 then ''2.000000000000000000e+00''
      else if x = Finite 5 then ''5.000000000000000000e+00''
      else ''nan'')"

subsection \<open>Notions used in the statements\<close>

text \<open>
  An index that \<open>A[r, c] = x\<close> accepts for a dimension of size \<open>n\<close>, and the cell and
  value that an edge triple \<open>(r, c, w)\<close> addresses in an \<open>n\<close> by \<open>n\<close> matrix.
\<close>

definition in_range :: "nat \<Rightarrow> int \<Rightarrow> bool" where
  "in_range n r = (- int n \<le> r \<and> r < int n)"

definition cell :: "nat \<Rightarrow> int \<times> int \<times> pyfloat \<Rightarrow> (nat \<times> nat) \<times> pyfloat" where
  "cell n t = ((wrap_index n (fst t), wrap_index n (fst (snd t))), snd (snd t))"

text \<open>
  Two matrices to run \<open>saveflag\<close> on. The first has an explicitly stored zero at
  \<open>(0, 1)\<close>, a zero-weight edge; the second stores the entry \<open>(1, 2)\<close> before the
  entry \<open>(0, 1)\<close>.
\<close>

definition flag_sample :: matrix where
  "flag_sample =
     \<lparr>dtype = Floating 64, shape = (2, 2),
      stored = [((0, 0), Finite 1), ((1, 1), Finite 2), ((1, 0), Finite 5),
                ((0, 1), Finite 0)]\<rparr>"


section \<open>Sample collaborators\<close>

text \<open>
  A matrix, an extraction and an engine to run \<open>flagser_static\<close> and
  \<open>flagser_persistence\<close> on: the engine returns one result whose first diagram has an
  infinite death, a NaN and a negative infinity.
\<close>

definition sample_matrix :: "dtype \<Rightarrow> matrix" where
  "sample_matrix dt =
     \<lparr>dtype = dt, shape = (2, 2),
      stored = [((0, 0), Finite 1), ((1, 1), Finite 1), ((0, 1), Finite 1)]\<rparr>"

definition sample_extract ::
  "matrix \<Rightarrow> exn + pyfloat list \<times> (nat \<times> nat \<times> pyfloat) list" where
  "sample_extract A = Inr ([Finite 1, Finite 1], [(0, 1, Finite 1)])"

definition sample_homology :: homology where
  "sample_homology = \<lparr>get_persistence_diagram = [[(Finite 0, PosInf), (NaN, NegInf)], []],
     get_cell_count = [2, 1], get_betti_numbers = [1, 0], get_euler_characteristic = 1\<rparr>"

definition sample_compute :: "engine_call \<Rightarrow> exn + homology list" where
  "sample_compute call = Inr [sample_homology]"

definition sample_extract_p ::
  "matrix \<Rightarrow> pynum option \<Rightarrow> exn + pyfloat list \<times> (nat \<times> nat \<times> pyfloat) list" where
  "sample_extract_p A m = Inr ([Finite 1, Finite 1], [(0, 1, Finite 1)])"

section \<open>Properties of flagser.py\<close>

lemma eq_np_inf_iff: "eq_np_inf x \<longleftrightarrow> x = PyFloat PosInf"
  by (cases x rule: eq_np_inf.cases) simp_all

lemma static_invalid:
  "filtration \<notin> set implemented_filtrations \<Longrightarrow>
   flagser_static ex cp M mind maxd dir filtration coeff approx = (Inl filtration_error, [])"
  by (simp add: flagser_static_def Let_def)

lemma persistence_invalid:
  "filtration \<notin> set implemented_filtrations \<Longrightarrow>
   flagser_persistence ex cp M mel mind maxd dir filtration coeff approx = (Inl filtration_error, [])"
  by (simp add: flagser_persistence_def Let_def)

lemma static_valid:
  "filtration \<in> set implemented_filtrations \<Longrightarrow> ex M = Inr (vs, es) \<Longrightarrow>
   flagser_static ex cp M mind maxd dir filtration coeff approx =
     (let call = \<lparr>call_vertices = vs, call_edges = es, call_min_dimension = mind,
                   call_max_dimension = (if maxd = PyFloat PosInf then PyInt (- 1) else maxd),
                   call_directed = dir, call_coeff = coeff,
                   call_approximation = (case approx of None \<Rightarrow> PyInt (- 1) | Some a \<Rightarrow> a),
                   call_filtration = filtration\<rparr>
      in (case cp call of Inl e \<Rightarrow> Inl e | Inr [] \<Rightarrow> Inl (Exn IndexError [])
          | Inr (h # _) \<Rightarrow> Inr \<lparr>dgms = get_persistence_diagram h,
                              cell_count = get_cell_count h,
                              betti = get_betti_numbers h,
                              euler = get_euler_characteristic h\<rparr>, [call]))"
  by (simp add: flagser_static_def Let_def eq_np_inf_iff split: sum.splits list.splits)

lemma persistence_valid:
  "filtration \<in> set implemented_filtrations \<Longrightarrow>
   ex M (resolve_max_edge_length mel (dtype M)) = Inr (vs, es) \<Longrightarrow>
   flagser_persistence ex cp M mel mind maxd dir filtration coeff approx =
     (let call = \<lparr>call_vertices = vs, call_edges = es, call_min_dimension = mind,
                   call_max_dimension = (if maxd = PyFloat PosInf then PyInt (- 1) else maxd),
                   call_directed = dir, call_coeff = coeff,
                   call_approximation = (case approx of None \<Rightarrow> PyInt (- 1) | Some a \<Rightarrow> a),
                   call_filtration = filtration\<rparr>
      in (case cp call of Inl e \<Rightarrow> Inl e | Inr [] \<Rightarrow> Inl (Exn IndexError [])
          | Inr (h # _) \<Rightarrow> Inr \<lparr>dgms = map (nan_to_num_dgm (resolve_max_edge_length mel (dtype M)))
                                       (get_persistence_diagram h),
                              cell_count = get_cell_count h,
                              betti = get_betti_numbers h,
                              euler = get_euler_characteristic h\<rparr>, [call]))"
  by (simp add: flagser_persistence_def Let_def eq_np_inf_iff split: sum.splits list.splits)

lemma max_in_registry: "''max'' \<in> set implemented_filtrations"
  by (simp add: implemented_filtrations_def)

lemma bogus_not_in_registry: "''bogus'' \<notin> set implemented_filtrations"
  by (simp add: implemented_filtrations_def)

text \<open>
  Claim C4, as the code has it. An explicit \<open>max_edge_length\<close> is kept. When it is
  \<open>None\<close>, an integer dtype resolves to its largest integer and a floating-point dtype
  to positive infinity. For any other dtype the value stays \<open>None\<close> and no exception is
  raised: \<open>flagser_persistence\<close> hands \<open>None\<close> to the extraction and, when that
  returns, calls the engine with what it returned.
\<close>

theorem max_edge_length_resolution:
  "resolve_max_edge_length (Some m) dt = Some m \<and>
   resolve_max_edge_length None (SignedInt b) = Some (PyInt (2 ^ (b - 1) - 1)) \<and>
   resolve_max_edge_length None (UnsignedInt b) = Some (PyInt (2 ^ b - 1)) \<and>
   resolve_max_edge_length None (Floating b) = Some (PyFloat PosInf) \<and>
   resolve_max_edge_length None Bool = None \<and>
   resolve_max_edge_length None (ComplexFloating b) = None \<and>
   resolve_max_edge_length None Object = None \<and>
   (filtration \<in> set implemented_filtrations \<and> resolve_max_edge_length None (dtype M) = None \<and>
    ex M None = Inr (vs, es) \<longrightarrow>
      (\<exists>call. snd (flagser_persistence ex cp M None mind maxd dir filtration coeff approx) = [call] \<and>
         call_vertices call = vs \<and> call_edges call = es))"
  by (simp add: resolve_max_edge_length_def persistence_valid Let_def)

theorem max_edge_length_resolution_witness:
  "''max'' \<in> set implemented_filtrations \<and>
   resolve_max_edge_length None (dtype (sample_matrix Bool)) = None \<and>
   sample_extract_p (sample_matrix Bool) None = Inr ([Finite 1, Finite 1], [(0, 1, Finite 1)]) \<and>
   resolve_max_edge_length None (SignedInt 64) = Some (PyInt 9223372036854775807) \<and>
   (\<exists>call. snd (flagser_persistence sample_extract_p sample_compute (sample_matrix Bool) None
                  (PyInt 0) (PyFloat PosInf) True ''max'' (PyInt 2) None) = [call] \<and>
      call_vertices call = [Finite 1, Finite 1] \<and> call_edges call = [(0, 1, Finite 1)])"
  using max_edge_length_resolution [of "PyInt 0" Bool 64 "''max''" "sample_matrix Bool"
      sample_extract_p "[Finite 1, Finite 1]" "[(0, 1, Finite 1)]" sample_compute
      "PyInt 0" "PyFloat PosInf" True "PyInt 2" None]
  by (simp add: max_in_registry sample_extract_p_def sample_matrix_def)

text \<open>
  The claim C4 as stated fails for a Boolean matrix: the unspecified \<open>max_edge_length\<close>
  resolves to \<open>None\<close>, and with an extraction and an engine that return, the call ends
  without any exception.
\<close>

theorem unresolved_max_edge_length_counterexample:
  "resolve_max_edge_length None (dtype (sample_matrix Bool)) = None \<and>
   \<not> isl (fst (flagser_persistence sample_extract_p sample_compute (sample_matrix Bool) None
                  (PyInt 0) (PyFloat PosInf) True ''max'' (PyInt 2) None))"
  by (simp add: persistence_valid [OF max_in_registry, where vs = "[Finite 1, Finite 1]" and es = "[(0, 1, Finite 1)]"]
       resolve_max_edge_length_def sample_matrix_def sample_extract_p_def
       sample_compute_def sample_homology_def Let_def)

text \<open>
  Claim C5, as the code has it. For a name outside the registry both functions raise the
  \<open>ValueError\<close> whose arguments are a fixed message and the list of the eleven valid
  names, and make no engine call. For a name of the registry, once the extraction has
  returned, each function calls the engine exactly once with that name, and returns a
  result whenever the engine returns a non-empty list.
\<close>

theorem filtration_validation:
  "(bad \<notin> set implemented_filtrations \<longrightarrow>
      flagser_static ex_s cp M mind maxd dir bad coeff approx = (Inl filtration_error, []) \<and>
      flagser_persistence ex_p cp M mel mind maxd dir bad coeff approx =
        (Inl filtration_error, [])) \<and>
   filtration_error =
     Exn ValueError
       [Str ''Filtration not recongnized. Available filtrations are '',
        StrList [''dimension'', ''zero'', ''max'', ''max3'', ''max_plus_one'', ''product'',
                 ''sum'', ''pmean'', ''pmoment'', ''remove_edges'', ''vertex_degree'']] \<and>
   (good \<in> set implemented_filtrations \<and> ex_s M = Inr (vs, es) \<and>
    ex_p M (resolve_max_edge_length mel (dtype M)) = Inr (vs', es') \<longrightarrow>
      (\<exists>call. snd (flagser_static ex_s cp M mind maxd dir good coeff approx) = [call] \<and>
         call_filtration call = good \<and>
         (\<forall>h hs. cp call = Inr (h # hs) \<longrightarrow>
            \<not> isl (fst (flagser_static ex_s cp M mind maxd dir good coeff approx)))) \<and>
      (\<exists>call. snd (flagser_persistence ex_p cp M mel mind maxd dir good coeff approx) = [call] \<and>
         call_filtration call = good \<and>
         (\<forall>h hs. cp call = Inr (h # hs) \<longrightarrow>
            \<not> isl (fst (flagser_persistence ex_p cp M mel mind maxd dir good coeff approx)))))"
  by (auto simp: static_invalid persistence_invalid static_valid persistence_valid Let_def
        filtration_error_def implemented_filtrations_def)

theorem filtration_validation_witness:
  "''bogus'' \<notin> set implemented_filtrations \<and>
   flagser_static sample_extract sample_compute (sample_matrix (Floating 64)) (PyInt 0)
       (PyFloat PosInf) True ''bogus'' (PyInt 2) None = (Inl filtration_error, []) \<and>
   flagser_persistence sample_extract_p sample_compute (sample_matrix (Floating 64)) None
       (PyInt 0) (PyFloat PosInf) True ''bogus'' (PyInt 2) None = (Inl filtration_error, []) \<and>
   ''max'' \<in> set implemented_filtrations \<and>
   sample_extract (sample_matrix (Floating 64)) = Inr ([Finite 1, Finite 1], [(0, 1, Finite 1)]) \<and>
   sample_extract_p (sample_matrix (Floating 64))
       (resolve_max_edge_length None (dtype (sample_matrix (Floating 64)))) =
     Inr ([Finite 1, Finite 1], [(0, 1, Finite 1)]) \<and>
   \<not> isl (fst (flagser_static sample_extract sample_compute (sample_matrix (Floating 64))
                  (PyInt 0) (PyFloat PosInf) True ''max'' (PyInt 2) None)) \<and>
   \<not> isl (fst (flagser_persistence sample_extract_p sample_compute
                  (sample_matrix (Floating 64)) None (PyInt 0) (PyFloat PosInf) True ''max''
                  (PyInt 2) None))"
  using filtration_validation [of "''bogus''" sample_extract sample_compute
      "sample_matrix (Floating 64)" "PyInt 0" "PyFloat PosInf" True "PyInt 2" None
      sample_extract_p None "''max''" "[Finite 1, Finite 1]" "[(0, 1, Finite 1)]"
      "[Finite 1, Finite 1]" "[(0, 1, Finite 1)]"]
  by (auto simp: max_in_registry bogus_not_in_registry sample_extract_def sample_extract_p_def
        sample_compute_def)

text \<open>
  The claim C5 as stated fails in one point: the exception does not name the invalid
  value. For the name \<open>bogus\<close> both functions raise \<open>filtration_error\<close>, and
  \<open>bogus\<close> occurs neither in its message nor in its list.
\<close>

theorem invalid_name_not_in_error_counterexample:
  "fst (flagser_static sample_extract sample_compute (sample_matrix (Floating 64)) (PyInt 0)
          (PyFloat PosInf) True ''bogus'' (PyInt 2) None) = Inl filtration_error \<and>
   fst (flagser_persistence sample_extract_p sample_compute (sample_matrix (Floating 64)) None
          (PyInt 0) (PyFloat PosInf) True ''bogus'' (PyInt 2) None) = Inl filtration_error \<and>
   \<not> mentions filtration_error ''bogus''"
  by (simp add: static_invalid persistence_invalid bogus_not_in_registry)
     (simp add: filtration_error_def implemented_filtrations_def)

text \<open>
  Claim C7. In both functions the engine receives \<open>-1\<close> as \<open>max_dimension\<close> when the
  caller passed \<open>np.inf\<close> and the caller's value otherwise, and \<open>-1\<close> as
  \<open>approximation\<close> when the caller passed \<open>None\<close> and the caller's value otherwise,
  a negative one included.
\<close>

theorem sentinel_mapping:
  assumes "filtration \<in> set implemented_filtrations"
    and "ex_s M = Inr (vs, es)"
    and "ex_p M (resolve_max_edge_length mel (dtype M)) = Inr (vs', es')"
  shows "(\<exists>call. snd (flagser_static ex_s cp M mind maxd dir filtration coeff approx) = [call] \<and>
            call_max_dimension call = (if maxd = PyFloat PosInf then PyInt (- 1) else maxd) \<and>
            call_approximation call = (case approx of None \<Rightarrow> PyInt (- 1) | Some a \<Rightarrow> a)) \<and>
         (\<exists>call. snd (flagser_persistence ex_p cp M mel mind maxd dir filtration coeff approx) =
                    [call] \<and>
            call_max_dimension call = (if maxd = PyFloat PosInf then PyInt (- 1) else maxd) \<and>
            call_approximation call = (case approx of None \<Rightarrow> PyInt (- 1) | Some a \<Rightarrow> a))"
  using assms by (simp add: static_valid persistence_valid Let_def)

theorem sentinel_mapping_witness:
  "''max'' \<in> set implemented_filtrations \<and>
   sample_extract (sample_matrix (Floating 64)) = Inr ([Finite 1, Finite 1], [(0, 1, Finite 1)]) \<and>
   sample_extract_p (sample_matrix (Floating 64))
       (resolve_max_edge_length None (dtype (sample_matrix (Floating 64)))) =
     Inr ([Finite 1, Finite 1], [(0, 1, Finite 1)]) \<and>
   (\<exists>call. snd (flagser_static sample_extract sample_compute (sample_matrix (Floating 64))
                  (PyInt 0) (PyInt 3) True ''max'' (PyInt 2) (Some (PyInt (- 5)))) = [call] \<and>
      call_max_dimension call = PyInt 3 \<and> call_approximation call = PyInt (- 5)) \<and>
   (\<exists>call. snd (flagser_persistence sample_extract_p sample_compute
                  (sample_matrix (Floating 64)) None (PyInt 0) (PyInt 3) True ''max'' (PyInt 2)
                  (Some (PyInt (- 5)))) = [call] \<and>
      call_max_dimension call = PyInt 3 \<and> call_approximation call = PyInt (- 5))"
  using sentinel_mapping [of "''max''" sample_extract "sample_matrix (Floating 64)"
      "[Finite 1, Finite 1]" "[(0, 1, Finite 1)]" sample_extract_p None
      "[Finite 1, Finite 1]" "[(0, 1, Finite 1)]" sample_compute "PyInt 0" "PyInt 3" True
      "PyInt 2" "Some (PyInt (- 5))"]
  by (simp add: max_in_registry sample_extract_def sample_extract_p_def)

subsection \<open>Integers stored as doubles\<close>

lemma bits_bounds: "0 < m \<Longrightarrow> 2 ^ (bits m - 1) \<le> m \<and> m < 2 ^ bits m"
proof (induction m rule: bits.induct)
  case (1 n)
  show ?case
  proof (cases "n div 2 = 0")
    case True
    with "1.prems" have "n = 1" by (simp add: div_eq_0_iff) 
    then show ?thesis by (simp add: bits.simps)
  next
    case False
    then have pos: "0 < n div 2" by simp
    from "1.prems" have n0: "n \<noteq> 0" by simp
    from "1.IH" [OF n0 pos] have lo: "2 ^ (bits (n div 2) - 1) \<le> n div 2"
      and hi: "n div 2 < 2 ^ bits (n div 2)" by simp_all
    have b: "bits n = Suc (bits (n div 2))" using n0 by (simp add: bits.simps)
    have bpos: "0 < bits (n div 2)" using pos by (simp add: bits.simps)
    then obtain k where k: "bits (n div 2) = Suc k" by (cases "bits (n div 2)") simp_all
    from lo k have "2 * 2 ^ k \<le> 2 * (n div 2)" by simp
    also have "\<dots> \<le> n" by simp
    finally have l: "2 ^ (bits n - 1) \<le> n" by (simp add: b k)
    from hi have "n < 2 * 2 ^ bits (n div 2)" by linarith
    then have h: "n < 2 ^ bits n" by (simp add: b)
    from l h show ?thesis by simp
  qed
qed

lemma bits_le: "m < 2 ^ k \<Longrightarrow> bits m \<le> k"
proof (cases "m = 0")
  case True
  then show ?thesis by (simp add: bits.simps)
next
  case False
  assume "m < 2 ^ k"
  from False have "0 < m" by simp
  from bits_bounds [OF this] have "2 ^ (bits m - 1) \<le> m" by simp
  from this \<open>m < 2 ^ k\<close> have "(2::nat) ^ (bits m - 1) < 2 ^ k" by (rule le_less_trans)
  then have "bits m - 1 < k" by simp
  then show ?thesis by simp
qed

lemma bits_eq: "2 ^ k \<le> m \<Longrightarrow> m < 2 ^ Suc k \<Longrightarrow> bits m = Suc k"
proof -
  assume lo: "2 ^ k \<le> m" and hi: "m < 2 ^ Suc k"
  from lo have pos: "0 < m" by (metis gr0I not_less zero_less_numeral zero_less_power)
  from hi have le: "bits m \<le> Suc k" by (rule bits_le)
  from bits_bounds [OF pos] have "m < 2 ^ bits m" by simp
  with lo have "(2::nat) ^ k < 2 ^ bits m" by (rule le_less_trans)
  then have "k < bits m" by simp
  with le show ?thesis by simp
qed

lemma round_double_exact: "\<bar>n\<bar> \<le> 2 ^ 53 \<Longrightarrow> round_double n = n"
proof -
  assume a: "\<bar>n\<bar> \<le> 2 ^ 53"
  let ?m = "nat \<bar>n\<bar>"
  show ?thesis
  proof (cases "\<bar>n\<bar> = 2 ^ 53")
    case True
    then have m: "?m = 2 ^ 53" by (simp add: nat_eq_iff)
    have "bits ((2::nat) ^ 53) = Suc 53" by (rule bits_eq) simp_all
    with m have "round_double n = sgn n * int (2 ^ 53)"
      by (simp add: round_double_def Let_def)
    also have "\<dots> = sgn n * \<bar>n\<bar>" using True by simp
    finally show ?thesis by (simp add: mult_sgn_abs)
  next
    case False
    with a have "?m < 2 ^ 53" by (simp add: nat_less_iff)
    then have "bits ?m \<le> 53" by (rule bits_le)
    then have "bits ?m - 53 = 0" by simp
    then have "round_double n = sgn n * int ?m"
      by (simp add: round_double_def Let_def)
    then show ?thesis by (simp add: mult_sgn_abs)
  qed
qed

lemma round_double_int64_max: "round_double 9223372036854775807 = 9223372036854775808"
proof -
  have "bits 9223372036854775807 = Suc 62" by (rule bits_eq) simp_all
  then show ?thesis by (simp add: round_double_def Let_def)
qed

lemma round_double_uint64_max: "round_double 18446744073709551615 = 18446744073709551616"
proof -
  have "bits 18446744073709551615 = Suc 63" by (rule bits_eq) simp_all
  then show ?thesis by (simp add: round_double_def Let_def)
qed

lemma round_double_nearest:
  "\<exists>e q. round_double n = q * 2 ^ e \<and> \<bar>q\<bar> \<le> 2 ^ 53 \<and> (e = 0 \<or> 2 ^ (52 + e) \<le> \<bar>n\<bar>) \<and>
          2 * \<bar>round_double n - n\<bar> \<le> 2 ^ e"
proof -
  define m where "m = nat \<bar>n\<bar>"
  define e where "e = bits m - 53"
  define q where "q = m div 2 ^ e"
  define r where "r = m mod 2 ^ e"
  define q' where "q' = (if 2 ^ e < 2 * r \<or> (2 * r = 2 ^ e \<and> odd q) then q + 1 else q)"
  have rd: "round_double n = sgn n * int (q' * 2 ^ e)"
    by (simp add: round_double_def Let_def m_def e_def q_def r_def q'_def)
  have n: "n = sgn n * int m"
    by (simp add: m_def mult_sgn_abs)
  have m: "m = q * 2 ^ e + r"
    unfolding q_def r_def by (rule div_mult_mod_eq [symmetric])
  have rlt: "r < 2 ^ e"
    by (simp add: r_def)
  have mlt: "m < 2 ^ (53 + e)"
  proof (cases "m = 0")
    case True
    then show ?thesis by simp
  next
    case False
    then have "m < 2 ^ bits m" using bits_bounds [of m] by simp
    also have "(2::nat) ^ bits m \<le> 2 ^ (53 + e)"
      by (rule power_increasing) (simp_all add: e_def)
    finally show ?thesis .
  qed
  have qlt: "q < 2 ^ 53"
  proof -
    have "m < 2 ^ 53 * 2 ^ e" using mlt by (simp add: power_add)
    then show ?thesis unfolding q_def by (simp add: less_mult_imp_div_less)
  qed
  have q'le: "q' \<le> 2 ^ 53"
    using qlt by (simp add: q'_def)
  have big: "e = 0 \<or> 2 ^ (52 + e) \<le> m"
  proof (cases "e = 0")
    case True
    then show ?thesis by simp
  next
    case False
    then have b: "bits m = 53 + e" by (simp add: e_def)
    then have "0 < m" by (cases "m = 0") (simp_all add: bits.simps)
    from bits_bounds [OF this] have "2 ^ (bits m - 1) \<le> m" by simp
    then show ?thesis by (simp add: b)
  qed
  have err: "2 * \<bar>int (q' * 2 ^ e) - int m\<bar> \<le> 2 ^ e"
  proof (cases "2 ^ e < 2 * r \<or> (2 * r = 2 ^ e \<and> odd q)")
    case True
    then have q': "q' = q + 1" by (simp add: q'_def)
    from True have "2 ^ e \<le> 2 * r" by auto
    then have "int (2 ^ e) \<le> int (2 * r)" by (rule iffD2 [OF of_nat_le_iff])
    then have "2 * (int (2 ^ e) - int r) \<le> int (2 ^ e)" by simp
    moreover have "int (q' * 2 ^ e) - int m = int (2 ^ e) - int r"
      by (simp add: q' m algebra_simps)
    moreover have "int r \<le> int (2 ^ e)" using rlt by simp
    ultimately show ?thesis by simp
  next
    case False
    then have q': "q' = q" by (simp add: q'_def)
    from False have "2 * r \<le> 2 ^ e" by auto
    then have "int (2 * r) \<le> int (2 ^ e)" by (rule iffD2 [OF of_nat_le_iff])
    then have "2 * int r \<le> int (2 ^ e)" by simp
    moreover have "int (q' * 2 ^ e) - int m = - int r"
      by (simp add: q' m)
    ultimately show ?thesis by simp
  qed
  have a: "\<bar>sgn n * int q'\<bar> \<le> 2 ^ 53"
  proof -
    have "\<bar>sgn n * int q'\<bar> \<le> int q'" by (simp add: abs_mult abs_sgn_eq)
    also have "\<dots> \<le> 2 ^ 53"
    proof -
      from q'le have "int q' \<le> int (2 ^ 53)" by (rule iffD2 [OF of_nat_le_iff])
      then show ?thesis by simp
    qed
    finally show ?thesis .
  qed
  have d: "round_double n - n = sgn n * (int (q' * 2 ^ e) - int m)"
    using rd n by (metis right_diff_distrib)
  have "2 * \<bar>round_double n - n\<bar> \<le> 2 * \<bar>int (q' * 2 ^ e) - int m\<bar>"
    unfolding d by (simp add: abs_mult abs_sgn_eq)
  with err have e2: "2 * \<bar>round_double n - n\<bar> \<le> 2 ^ e" by simp
  have b2: "e = 0 \<or> 2 ^ (52 + e) \<le> \<bar>n\<bar>"
  proof -
    from big show ?thesis
    proof
      assume "e = 0" then show ?thesis by simp
    next
      assume "2 ^ (52 + e) \<le> m"
      then have "int (2 ^ (52 + e)) \<le> int m" by (simp only: of_nat_le_iff)
      then show ?thesis by (simp add: m_def)
    qed
  qed
  have "round_double n = (sgn n * int q') * 2 ^ e"
    by (simp add: rd)
  with a b2 e2 show ?thesis by blast
qed

text \<open>
  Claim C9, as the code has it. When \<open>flagser_persistence\<close> returns, every entry of the
  diagrams it returns is the engine's entry with NaN replaced by 0, negative infinity by
  the most negative finite double, and positive infinity by the resolved
  \<open>max_edge_length\<close> as a double: the bound itself when it is a float, the double nearest
  to it when it is an integer, and the largest finite double when it resolved to \<open>None\<close>.
  The double nearest to an integer \<open>n\<close> is \<open>n\<close> up to magnitude \<open>2^53\<close>; beyond, it
  is a multiple \<open>q * 2^e\<close> with \<open>q\<close> of magnitude at most \<open>2^53\<close>, at distance at most
  \<open>2^e / 2\<close> from \<open>n\<close>, so the largest 64-bit integers \<open>2^63 - 1\<close> and \<open>2^64 - 1\<close> become
  \<open>2^63\<close> and \<open>2^64\<close>. \<open>flagser_static\<close> returns the engine's diagrams unchanged.
\<close>

theorem infinite_deaths_replaced:
  "(flagser_persistence ex_p cp M mel mind maxd dir filtration coeff approx =
      (Inr res, calls) \<longrightarrow>
    (\<exists>call h hs. calls = [call] \<and> cp call = Inr (h # hs) \<and>
       dgms res =
         map (map (\<lambda>(b, d).
                ((if b = PosInf
                  then (case resolve_max_edge_length mel (dtype M) of
                          None \<Rightarrow> Finite float_max
                        | Some (PyFloat y) \<Rightarrow> y
                        | Some (PyInt n) \<Rightarrow> Finite (of_int (round_double n)))
                  else if b = NaN then Finite 0
                  else if b = NegInf then Finite (- float_max) else b),
                 (if d = PosInf
                  then (case resolve_max_edge_length mel (dtype M) of
                          None \<Rightarrow> Finite float_max
                        | Some (PyFloat y) \<Rightarrow> y
                        | Some (PyInt n) \<Rightarrow> Finite (of_int (round_double n)))
                  else if d = NaN then Finite 0
                  else if d = NegInf then Finite (- float_max) else d))))
           (get_persistence_diagram h))) \<and>
   (flagser_static ex_s cp' M' mind' maxd' dir' filtration' coeff' approx' =
      (Inr res', calls') \<longrightarrow>
    (\<exists>call h hs. calls' = [call] \<and> cp' call = Inr (h # hs) \<and>
       dgms res' = get_persistence_diagram h)) \<and>
   (\<bar>k\<bar> \<le> 2 ^ 53 \<longrightarrow> round_double k = k) \<and>
   (\<exists>e q. round_double k = q * 2 ^ e \<and> \<bar>q\<bar> \<le> 2 ^ 53 \<and>
      (e = 0 \<or> 2 ^ (52 + e) \<le> \<bar>k\<bar>) \<and> 2 * \<bar>round_double k - k\<bar> \<le> 2 ^ e) \<and>
   round_double (2 ^ 63 - 1) = 2 ^ 63 \<and>
   round_double (2 ^ 64 - 1) = 2 ^ 64"
proof -
  let ?top = "case resolve_max_edge_length mel (dtype M) of
                None \<Rightarrow> Finite float_max
              | Some (PyFloat y) \<Rightarrow> y
              | Some (PyInt n) \<Rightarrow> Finite (of_int (round_double n))"
  have subst: "nan_to_num (resolve_max_edge_length mel (dtype M)) x =
      (if x = PosInf then ?top else if x = NaN then Finite 0
       else if x = NegInf then Finite (- float_max) else x)" for x
    by (cases x) (simp_all split: option.splits pynum.splits)
  have dgm: "nan_to_num_dgm (resolve_max_edge_length mel (dtype M)) =
      map (\<lambda>(b, d).
             ((if b = PosInf then ?top else if b = NaN then Finite 0
               else if b = NegInf then Finite (- float_max) else b),
              (if d = PosInf then ?top else if d = NaN then Finite 0
               else if d = NegInf then Finite (- float_max) else d)))"
    by (rule ext) (simp only: nan_to_num_dgm_def subst)
  have p: "\<exists>call h hs. calls = [call] \<and> cp call = Inr (h # hs) \<and>
      dgms res = map (nan_to_num_dgm (resolve_max_edge_length mel (dtype M)))
        (get_persistence_diagram h)"
    if "flagser_persistence ex_p cp M mel mind maxd dir filtration coeff approx =
      (Inr res, calls)"
    using that
    by (auto simp: flagser_persistence_def Let_def
          split: if_splits sum.splits list.splits prod.splits)
  have s: "\<exists>call h hs. calls' = [call] \<and> cp' call = Inr (h # hs) \<and>
      dgms res' = get_persistence_diagram h"
    if "flagser_static ex_s cp' M' mind' maxd' dir' filtration' coeff' approx' =
      (Inr res', calls')"
    using that
    by (auto simp: flagser_static_def Let_def
          split: if_splits sum.splits list.splits prod.splits)
  have a: "round_double (2 ^ 63 - 1) = 2 ^ 63"
    using round_double_int64_max by simp
  have b: "round_double (2 ^ 64 - 1) = 2 ^ 64"
    using round_double_uint64_max by simp
  show ?thesis
    using p s round_double_exact [of k] round_double_nearest [of k] a b
    by (simp only: dgm) blast
qed

lemma sample_persistence_int64:
  "flagser_persistence sample_extract_p sample_compute (sample_matrix (SignedInt 64)) None
       (PyInt 0) (PyFloat PosInf) True ''max'' (PyInt 2) None =
     (Inr \<lparr>dgms = [[(Finite 0, Finite 9223372036854775808), (Finite 0, Finite (- float_max))],
                    []],
            cell_count = [2, 1], betti = [1, 0], euler = 1\<rparr>,
      [\<lparr>call_vertices = [Finite 1, Finite 1], call_edges = [(0, 1, Finite 1)],
        call_min_dimension = PyInt 0, call_max_dimension = PyInt (- 1),
        call_directed = True, call_coeff = PyInt 2, call_approximation = PyInt (- 1),
        call_filtration = ''max''\<rparr>])"
proof -
  have r: "resolve_max_edge_length None (dtype (sample_matrix (SignedInt 64))) =
      Some (PyInt 9223372036854775807)"
    by (simp add: resolve_max_edge_length_def sample_matrix_def)
  show ?thesis
    by (simp add: persistence_valid [OF max_in_registry,
            where vs = "[Finite 1, Finite 1]" and es = "[(0, 1, Finite 1)]"]
          r sample_extract_p_def sample_compute_def sample_homology_def nan_to_num_dgm_def
          round_double_int64_max)
qed

lemma sample_static_int64:
  "flagser_static sample_extract sample_compute (sample_matrix (SignedInt 64))
       (PyInt 0) (PyFloat PosInf) True ''max'' (PyInt 2) None =
     (Inr \<lparr>dgms = [[(Finite 0, PosInf), (NaN, NegInf)], []],
            cell_count = [2, 1], betti = [1, 0], euler = 1\<rparr>,
      [\<lparr>call_vertices = [Finite 1, Finite 1], call_edges = [(0, 1, Finite 1)],
        call_min_dimension = PyInt 0, call_max_dimension = PyInt (- 1),
        call_directed = True, call_coeff = PyInt 2, call_approximation = PyInt (- 1),
        call_filtration = ''max''\<rparr>])"
  by (simp add: static_valid [OF max_in_registry,
          where vs = "[Finite 1, Finite 1]" and es = "[(0, 1, Finite 1)]"]
        sample_extract_def sample_compute_def sample_homology_def)

theorem infinite_deaths_replaced_witness:
  "flagser_persistence sample_extract_p sample_compute (sample_matrix (SignedInt 64)) None
       (PyInt 0) (PyFloat PosInf) True ''max'' (PyInt 2) None =
     (Inr \<lparr>dgms = [[(Finite 0, Finite 9223372036854775808), (Finite 0, Finite (- float_max))],
                    []],
            cell_count = [2, 1], betti = [1, 0], euler = 1\<rparr>,
      [\<lparr>call_vertices = [Finite 1, Finite 1], call_edges = [(0, 1, Finite 1)],
        call_min_dimension = PyInt 0, call_max_dimension = PyInt (- 1),
        call_directed = True, call_coeff = PyInt 2, call_approximation = PyInt (- 1),
        call_filtration = ''max''\<rparr>]) \<and>
   flagser_static sample_extract sample_compute (sample_matrix (SignedInt 64))
       (PyInt 0) (PyFloat PosInf) True ''max'' (PyInt 2) None =
     (Inr \<lparr>dgms = [[(Finite 0, PosInf), (NaN, NegInf)], []],
            cell_count = [2, 1], betti = [1, 0], euler = 1\<rparr>,
      [\<lparr>call_vertices = [Finite 1, Finite 1], call_edges = [(0, 1, Finite 1)],
        call_min_dimension = PyInt 0, call_max_dimension = PyInt (- 1),
        call_directed = True, call_coeff = PyInt 2, call_approximation = PyInt (- 1),
        call_filtration = ''max''\<rparr>]) \<and>
   \<bar>127 :: int\<bar> \<le> 2 ^ 53 \<and> round_double 127 = 127 \<and>
   resolve_max_edge_length None (dtype (sample_matrix (SignedInt 64))) =
     Some (PyInt 9223372036854775807) \<and>
   get_persistence_diagram sample_homology = [[(Finite 0, PosInf), (NaN, NegInf)], []]"
proof -
  have r: "resolve_max_edge_length None (dtype (sample_matrix (SignedInt 64))) =
      Some (PyInt 9223372036854775807)"
    by (simp add: resolve_max_edge_length_def sample_matrix_def)
  from infinite_deaths_replaced [where k = 127
      and ex_p = sample_extract_p and cp = sample_compute
      and M = "sample_matrix (SignedInt 64)" and mel = None
      and ex_s = sample_extract and cp' = sample_compute
      and M' = "sample_matrix (SignedInt 64)"]
    sample_persistence_int64 sample_static_int64 r
  show ?thesis by (simp add: sample_homology_def)
qed

text \<open>
  The claim C9 as stated fails for a matrix of 64-bit integers and an unspecified
  \<open>max_edge_length\<close>: the bound resolves to \<open>2^63 - 1\<close>, and the infinite death of the
  engine's first diagram comes back as \<open>2^63\<close>, the double nearest to the bound, not as
  the bound.
\<close>

theorem integer_bound_rounded_counterexample:
  "resolve_max_edge_length None (dtype (sample_matrix (SignedInt 64))) =
     Some (PyInt 9223372036854775807) \<and>
   get_persistence_diagram sample_homology = [[(Finite 0, PosInf), (NaN, NegInf)], []] \<and>
   dgms (projr (fst (flagser_persistence sample_extract_p sample_compute
                       (sample_matrix (SignedInt 64)) None (PyInt 0) (PyFloat PosInf) True
                       ''max'' (PyInt 2) None))) =
     [[(Finite 0, Finite 9223372036854775808), (Finite 0, Finite (- float_max))], []] \<and>
   Finite 9223372036854775808 \<noteq> Finite (of_int 9223372036854775807)"
proof -
  have r: "resolve_max_edge_length None (dtype (sample_matrix (SignedInt 64))) =
      Some (PyInt 9223372036854775807)"
    by (simp add: resolve_max_edge_length_def sample_matrix_def)
  show ?thesis
    by (simp add: r sample_persistence_int64 sample_homology_def)
qed

section \<open>Properties of flagio.py\<close>

subsection \<open>Association lists and the matrix operations\<close>

lemma map_exn_length: "map_exn f xs = Inr ys \<Longrightarrow> length ys = length xs"
  by (induction xs arbitrary: ys) (auto split: sum.splits)

lemma map_exn_Inr_all:
  "map_exn f xs = Inr ys \<Longrightarrow> x \<in> set xs \<Longrightarrow> \<exists>y \<in> set ys. f x = Inr y"
  by (induction xs arbitrary: ys) (auto split: sum.splits)

lemma map_of_fold_update:
  "map_of (fold (\<lambda>(k, v). AList.update k v) kvs al) k =
     (case map_of (rev kvs) k of Some v \<Rightarrow> Some v | None \<Rightarrow> map_of al k)"
  by (induction kvs arbitrary: al) (auto simp: update_conv' split: option.splits)

lemma map_of_rev_absent:
  "k \<notin> fst ` set kvs \<Longrightarrow> map_of (rev kvs) k = None"
  by (simp add: map_of_eq_None_iff)

lemma map_of_rev_present:
  "k \<in> fst ` set kvs \<Longrightarrow> \<exists>v. map_of (rev kvs) k = Some v"
  by (cases "map_of (rev kvs) k") (simp_all add: map_of_eq_None_iff)

lemma map_of_diag:
  "map_of (rev (map (\<lambda>(i, v). ((i, i), v)) (enumerate k ws))) (i, j) =
     (if i = j \<and> k \<le> i \<and> i < k + length ws then Some (ws ! (i - k)) else None)"
proof (induction ws arbitrary: k)
  case Nil
  then show ?case by simp
next
  case (Cons w ws)
  show ?case
    by (auto simp: Cons.IH map_add_def nth_Cons' Suc_diff_Suc split: option.splits)
qed

lemma csr_matrix_sel [simp]:
  "dtype (csr_matrix sh) = Floating 64" "shape (csr_matrix sh) = sh" "stored (csr_matrix sh) = []"
  by (simp_all add: csr_matrix_def)

lemma setdiag_stored:
  "stored (setdiag (csr_matrix (n, n)) ws) =
     fold (\<lambda>(k, v). AList.update k v) (map (\<lambda>(i, v). ((i, i), v)) (enumerate 0 (take n ws))) []"
  by (simp add: setdiag_def csr_matrix_def fold_map comp_def case_prod_unfold)

lemma setdiag_shape [simp]: "shape (setdiag A ws) = shape A"
  by (simp add: setdiag_def)

lemma setdiag_dtype [simp]: "dtype (setdiag A ws) = dtype A"
  by (simp add: setdiag_def)

lemma setitem_ok:
  "shape A = (n, n) \<Longrightarrow> in_range n r \<Longrightarrow> in_range n c \<Longrightarrow>
   setitem A r c w = Inr (A\<lparr>stored := AList.update (fst (cell n (r, c, w))) w (stored A)\<rparr>)"
  by (auto simp: setitem_def in_range_def cell_def)

lemma setitem_Inr:
  "shape A = (n, n) \<Longrightarrow> setitem A r c w = Inr A' \<Longrightarrow>
   in_range n r \<and> in_range n c \<and> shape A' = (n, n)"
  by (auto simp: setitem_def in_range_def split: if_splits)

lemma wrap_index_less: "in_range n r \<Longrightarrow> wrap_index n r < n"
  by (auto simp: in_range_def wrap_index_def)

lemma wrap_index_nonneg: "0 \<le> r \<Longrightarrow> wrap_index n r = nat r"
  by (simp add: wrap_index_def)

lemma diagonal_nth:
  "shape A = (n, n) \<Longrightarrow> i < n \<Longrightarrow>
   diagonal A ! i = (case map_of (stored A) (i, i) of None \<Rightarrow> Finite 0 | Some v \<Rightarrow> v)"
  by (simp add: diagonal_def)

lemma diagonal_length: "shape A = (n, n) \<Longrightarrow> length (diagonal A) = n"
  by (simp add: diagonal_def)

subsection \<open>What loadflag returns\<close>

lemma load_edges_ok:
  "shape A = (n, n) \<Longrightarrow> map_exn (read_edge lit) lines = Inr ts \<Longrightarrow>
   list_all (\<lambda>t. in_range n (fst t) \<and> in_range n (fst (snd t))) ts \<Longrightarrow>
   load_edges lit A lines =
     Inr (A\<lparr>stored := fold (\<lambda>(k, v). AList.update k v) (map (cell n) ts) (stored A)\<rparr>)"
proof (induction lines arbitrary: A ts)
  case Nil
  then show ?case by simp
next
  case (Cons line lines)
  from Cons.prems(2) obtain t ts' where t: "read_edge lit line = Inr t"
      and ts': "map_exn (read_edge lit) lines = Inr ts'" and ts: "ts = t # ts'"
    by (auto split: sum.splits)
  obtain r c w where rcw: "t = (r, c, w)" by (cases t)
  from Cons.prems(3) ts rcw have rng: "in_range n r" "in_range n c"
    and rest: "list_all (\<lambda>t. in_range n (fst t) \<and> in_range n (fst (snd t))) ts'"
    by simp_all
  let ?A' = "A\<lparr>stored := AList.update (fst (cell n (r, c, w))) w (stored A)\<rparr>"
  have step: "setitem A r c w = Inr ?A'"
    using Cons.prems(1) rng by (rule setitem_ok)
  have sh: "shape ?A' = (n, n)" using Cons.prems(1) by simp
  show ?case
    using Cons.IH [OF sh ts' rest] t rcw step ts
    by (simp add: cell_def)
qed

lemma load_edges_Inr:
  "shape A = (n, n) \<Longrightarrow> load_edges lit A lines = Inr A' \<Longrightarrow>
   \<exists>ts. map_exn (read_edge lit) lines = Inr ts \<and>
        list_all (\<lambda>t. in_range n (fst t) \<and> in_range n (fst (snd t))) ts"
proof (induction lines arbitrary: A)
  case Nil
  then show ?case by simp
next
  case (Cons line lines)
  from Cons.prems(2) obtain r c w A1 where t: "read_edge lit line = Inr (r, c, w)"
      and s: "setitem A r c w = Inr A1" and l: "load_edges lit A1 lines = Inr A'"
    by (auto split: sum.splits prod.splits)
  from setitem_Inr [OF Cons.prems(1) s] have rng: "in_range n r" "in_range n c"
    and sh: "shape A1 = (n, n)" by simp_all
  from Cons.IH [OF sh l] obtain ts where "map_exn (read_edge lit) lines = Inr ts"
    "list_all (\<lambda>t. in_range n (fst t) \<and> in_range n (fst (snd t))) ts" by blast
  with t rng show ?case by simp
qed

lemma read_edge_tokens:
  "read_edge lit line = Inr t \<Longrightarrow> 3 \<le> length (split_sp (strip line))"
  by (auto simp: read_edge_def getitem_def Let_def split: if_splits sum.splits)

lemma py_float_empty: "py_float lit [] = Inl (Exn ValueError [])"
  by (simp add: py_float_def strip_def)

lemma loadflag_unfold:
  "loadflag lit (h0 # vline # rest) =
     (case map_exn (py_float lit) (split_sp (strip vline)) of
        Inl e \<Rightarrow> Inl e
      | Inr ws \<Rightarrow>
          load_edges lit (setdiag (csr_matrix (length ws, length ws)) ws) (drop 1 rest))"
  by (simp add: loadflag_def readline_def Let_def split: sum.splits)

lemma loadflag_ok:
  assumes ws: "map_exn (py_float lit) (split_sp (strip vline)) = Inr ws"
    and ts: "map_exn (read_edge lit) (drop 1 rest) = Inr ts"
    and rng: "list_all (\<lambda>t. in_range (length ws) (fst t) \<and> in_range (length ws) (fst (snd t))) ts"
  shows "\<exists>A. loadflag lit (h0 # vline # rest) = Inr A \<and> dtype A = Floating 64 \<and>
           shape A = (length ws, length ws) \<and>
           (\<forall>i j. map_of (stored A) (i, j) =
              (case map_of (rev (map (cell (length ws)) ts)) (i, j) of
                 Some v \<Rightarrow> Some v
               | None \<Rightarrow> if i = j \<and> i < length ws then Some (ws ! i) else None))"
proof -
  let ?n = "length ws"
  let ?A0 = "setdiag (csr_matrix (?n, ?n)) ws"
  have sh: "shape ?A0 = (?n, ?n)" by simp
  have l: "loadflag lit (h0 # vline # rest) =
      Inr (?A0\<lparr>stored := fold (\<lambda>(k, v). AList.update k v) (map (cell ?n) ts) (stored ?A0)\<rparr>)"
    using load_edges_ok [OF sh ts rng] ws by (simp add: loadflag_unfold)
  have d: "map_of (stored ?A0) (i, j) =
      (if i = j \<and> i < ?n then Some (ws ! i) else None)" for i j
    using map_of_diag [of 0 ws i j]
    by (simp add: setdiag_stored map_of_fold_update split: option.splits)
  have m: "map_of (fold (\<lambda>(k, v). AList.update k v) (map (cell ?n) ts) (stored ?A0)) (i, j) =
      (case map_of (rev (map (cell ?n) ts)) (i, j) of
         Some v \<Rightarrow> Some v
       | None \<Rightarrow> if i = j \<and> i < ?n then Some (ws ! i) else None)" for i j
    by (simp only: map_of_fold_update d)
  show ?thesis
    by (rule exI [of _ "?A0\<lparr>stored := fold (\<lambda>(k, v). AList.update k v) (map (cell ?n) ts)
          (stored ?A0)\<rparr>"])
       (simp add: l m)
qed

lemma loadflag_Inr:
  assumes "loadflag lit f = Inr A"
  shows "\<exists>h0 vline rest ws. f = h0 # vline # rest \<and>
           map_exn (py_float lit) (split_sp (strip vline)) = Inr ws \<and>
           (\<forall>line \<in> set (drop 1 rest). \<exists>t. read_edge lit line = Inr t \<and>
               in_range (length ws) (fst t) \<and> in_range (length ws) (fst (snd t)))"
proof (cases f)
  case Nil
  with assms show ?thesis by (simp add: loadflag_def)
next
  case f: (Cons h0 f1)
  show ?thesis
  proof (cases f1)
    case Nil
    with assms f show ?thesis
      by (simp add: loadflag_def readline_def strip_def py_float_empty)
  next
    case (Cons vline rest)
    from assms f Cons obtain ws where ws: "map_exn (py_float lit) (split_sp (strip vline)) = Inr ws"
      and le: "load_edges lit (setdiag (csr_matrix (length ws, length ws)) ws) (drop 1 rest) = Inr A"
      by (auto simp: loadflag_unfold split: sum.splits)
    have sh: "shape (setdiag (csr_matrix (length ws, length ws)) ws) = (length ws, length ws)"
      by simp
    from load_edges_Inr [OF sh le] obtain ts
      where ts: "map_exn (read_edge lit) (drop 1 rest) = Inr ts"
        and rng: "list_all (\<lambda>t. in_range (length ws) (fst t) \<and> in_range (length ws) (fst (snd t))) ts"
      by blast
    have "\<exists>t. read_edge lit line = Inr t \<and>
            in_range (length ws) (fst t) \<and> in_range (length ws) (fst (snd t))"
      if "line \<in> set (drop 1 rest)" for line
      using map_exn_Inr_all [OF ts that] rng by (auto simp: list_all_iff)
    with f Cons ws show ?thesis by blast
  qed
qed

text \<open>
  Claim C2. A file is well formed when its vertex line reads as the weights \<open>ws\<close>, its
  edge lines read as the triples \<open>ts\<close>, and every triple has its two indices in
  \<open>[0, n)\<close> and different from each other, \<open>n\<close> being the number of weights. Then
  \<open>loadflag\<close> returns a matrix of shape \<open>n\<close> by \<open>n\<close>, where \<open>n\<close> is the number of
  tokens of the vertex line; its diagonal is \<open>ws\<close>; off the diagonal the value stored in
  a cell is the weight of the last triple that addresses it, and nothing is stored in a
  cell that no triple addresses; the cell of every triple is stored, whatever the weight,
  so a triple of weight 0 leaves a stored zero.
\<close>

theorem loadflag_well_formed:
  assumes ws: "map_exn (py_float lit) (split_sp (strip vline)) = Inr ws"
    and ts: "map_exn (read_edge lit) edge_lines = Inr ts"
    and wf: "\<forall>t \<in> set ts. 0 \<le> fst t \<and> fst t < int (length ws) \<and>
               0 \<le> fst (snd t) \<and> fst (snd t) < int (length ws) \<and> fst t \<noteq> fst (snd t)"
  shows "\<exists>A. loadflag lit (h0 # vline # h1 # edge_lines) = Inr A \<and>
           shape A = (length (split_sp (strip vline)), length (split_sp (strip vline))) \<and>
           diagonal A = ws \<and>
           (\<forall>i j. i \<noteq> j \<longrightarrow>
              map_of (stored A) (i, j) =
                map_of (rev (map (\<lambda>t. ((nat (fst t), nat (fst (snd t))), snd (snd t))) ts))
                  (i, j)) \<and>
           (\<forall>t \<in> set ts. (nat (fst t), nat (fst (snd t))) \<in> fst ` set (stored A))"
proof -
  let ?n = "length ws"
  let ?cells = "map (\<lambda>t. ((nat (fst t), nat (fst (snd t))), snd (snd t))) ts"
  have cells: "map (cell ?n) ts = ?cells"
    using wf by (auto simp: cell_def wrap_index_nonneg)
  have rng: "list_all (\<lambda>t. in_range ?n (fst t) \<and> in_range ?n (fst (snd t))) ts"
    using wf by (auto simp: list_all_iff in_range_def)
  from ts have ts': "map_exn (read_edge lit) (drop 1 (h1 # edge_lines)) = Inr ts" by simp
  from loadflag_ok [OF ws ts' rng, of h0] obtain A
    where l: "loadflag lit (h0 # vline # h1 # edge_lines) = Inr A"
      and sh: "shape A = (?n, ?n)"
      and m: "\<And>i j. map_of (stored A) (i, j) =
              (case map_of (rev ?cells) (i, j) of
                 Some v \<Rightarrow> Some v
               | None \<Rightarrow> if i = j \<and> i < ?n then Some (ws ! i) else None)"
    unfolding cells by blast
  have nodiag: "(i, i) \<notin> fst ` set ?cells" for i
    using wf by (auto simp: image_iff)
  have diag: "map_of (stored A) (i, i) = Some (ws ! i)" if "i < ?n" for i
    using that by (simp add: m map_of_rev_absent [OF nodiag])
  have d: "diagonal A = ws"
    by (rule nth_equalityI) (simp_all add: diagonal_length [OF sh] diagonal_nth [OF sh] diag)
  have off: "map_of (stored A) (i, j) = map_of (rev ?cells) (i, j)" if "i \<noteq> j" for i j
    using that by (simp add: m split: option.splits)
  have pres: "(nat (fst t), nat (fst (snd t))) \<in> fst ` set (stored A)" if "t \<in> set ts" for t
  proof -
    from that have "(nat (fst t), nat (fst (snd t))) \<in> fst ` set ?cells"
      by (force simp: image_iff)
    from map_of_rev_present [OF this] obtain v
      where "map_of (rev ?cells) (nat (fst t), nat (fst (snd t))) = Some v" ..
    then have "map_of (stored A) (nat (fst t), nat (fst (snd t))) = Some v"
      by (simp add: m)
    then show ?thesis
      by (metis map_of_eq_None_iff option.distinct(1))
  qed
  from l sh d off pres show ?thesis
    using map_exn_length [OF ws] by auto
qed

theorem loadflag_well_formed_witness:
  "map_exn (py_float lit_sample) (split_sp (strip ''1.0 2.0 3.0'')) =
     Inr [Finite 1, Finite 2, Finite 3] \<and>
   map_exn (read_edge lit_sample) [''0 1 5.0'', ''1 2 0.0''] =
     Inr [(0, 1, Finite 5), (1, 2, Finite 0)] \<and>
   (\<exists>A. loadflag lit_sample [''dim 0'', ''1.0 2.0 3.0'', ''dim 1'', ''0 1 5.0'', ''1 2 0.0''] =
          Inr A \<and>
      shape A = (3, 3) \<and> diagonal A = [Finite 1, Finite 2, Finite 3] \<and>
      map_of (stored A) (0, 1) = Some (Finite 5) \<and>
      map_of (stored A) (1, 2) = Some (Finite 0) \<and>
      map_of (stored A) (1, 0) = None)"
proof -
  have ws: "map_exn (py_float lit_sample) (split_sp (strip ''1.0 2.0 3.0'')) =
      Inr [Finite 1, Finite 2, Finite 3]"
    by code_simp
  have ts: "map_exn (read_edge lit_sample) [''0 1 5.0'', ''1 2 0.0''] =
      Inr [(0, 1, Finite 5), (1, 2, Finite 0)]"
    by code_simp
  have n: "length (split_sp (strip ''1.0 2.0 3.0'')) = 3"
    by code_simp
  from loadflag_well_formed [OF ws ts, of "''dim 0''" "''dim 1''"] obtain A
    where "loadflag lit_sample [''dim 0'', ''1.0 2.0 3.0'', ''dim 1'', ''0 1 5.0'', ''1 2 0.0''] =
          Inr A"
      "shape A = (3, 3)" "diagonal A = [Finite 1, Finite 2, Finite 3]"
      "\<And>i j. i \<noteq> j \<Longrightarrow> map_of (stored A) (i, j) =
         map_of (rev (map (\<lambda>t. ((nat (fst t), nat (fst (snd t))), snd (snd t)))
           [(0, 1, Finite 5), (1, 2, Finite 0)])) (i, j)"
    unfolding n by auto
  then show ?thesis
    using ws ts by (intro conjI exI [of _ A]) simp_all
qed

lemma py_float_Inl: "py_float lit s = Inl e \<Longrightarrow> e = Exn ValueError []"
  by (auto simp: py_float_def Let_def split: if_splits option.splits)

lemma py_int_Inl: "py_int x = Inl e \<Longrightarrow> e = Exn ValueError [] \<or> e = Exn OverflowError []"
  by (cases x) auto

lemma getitem_Inl: "getitem xs i = Inl e \<Longrightarrow> e = Exn IndexError []"
  by (auto simp: getitem_def split: if_splits)

lemma setitem_Inl: "setitem A r c w = Inl e \<Longrightarrow> e = Exn IndexError []"
  by (auto simp: setitem_def split: if_splits)

lemma read_edge_Inl:
  assumes "read_edge lit line = Inl e"
  shows "e = Exn ValueError [] \<or> e = Exn IndexError [] \<or> e = Exn OverflowError []"
  using assms
  by (auto simp: read_edge_def Let_def split: sum.splits
        dest: py_float_Inl py_int_Inl getitem_Inl)

lemma load_edges_Inl:
  "load_edges lit A lines = Inl e \<Longrightarrow>
   e = Exn ValueError [] \<or> e = Exn IndexError [] \<or> e = Exn OverflowError []"
proof (induction lines arbitrary: A)
  case Nil
  then show ?case by simp
next
  case (Cons line lines)
  show ?case
  proof (cases "read_edge lit line")
    case (Inl e')
    with Cons.prems have "e = e'" by simp
    with Inl show ?thesis by (auto dest: read_edge_Inl)
  next
    case (Inr t)
    obtain r c w where t: "t = (r, c, w)" by (cases t)
    show ?thesis
    proof (cases "setitem A r c w")
      case (Inl e')
      with Cons.prems Inr t have "e = e'" by simp
      with Inl show ?thesis by (auto dest: setitem_Inl)
    next
      case (Inr A')
      with Cons.prems \<open>read_edge lit line = Inr t\<close> t
      have "load_edges lit A' lines = Inl e" by simp
      then show ?thesis by (rule Cons.IH)
    qed
  qed
qed

lemma map_exn_Inl:
  "map_exn f xs = Inl e \<Longrightarrow> \<exists>x \<in> set xs. f x = Inl e"
  by (induction xs) (auto split: sum.splits)

lemma map_exn_fails:
  "x \<in> set xs \<Longrightarrow> isl (f x) \<Longrightarrow> isl (map_exn f xs)"
  by (induction xs) (auto split: sum.splits)

lemma loadflag_Inl:
  assumes "loadflag lit f = Inl e"
  shows "e = Exn StopIteration [] \<or> e = Exn ValueError [] \<or> e = Exn IndexError [] \<or>
         e = Exn OverflowError []"
proof (cases f)
  case Nil
  with assms show ?thesis by (simp add: loadflag_def)
next
  case (Cons h0 f1)
  show ?thesis
  proof (cases "map_exn (py_float lit) (split_sp (strip (readline f1)))")
    case (Inl e')
    with assms Cons have "e = e'" by (simp add: loadflag_def Let_def)
    moreover from map_exn_Inl [OF Inl] have "e' = Exn ValueError []"
      by (auto dest: py_float_Inl)
    ultimately show ?thesis by simp
  next
    case (Inr ws)
    with assms Cons have "load_edges lit (setdiag (csr_matrix (length ws, length ws)) ws)
        (drop 1 (drop 1 f1)) = Inl e"
      by (simp add: loadflag_def Let_def)
    from load_edges_Inl [OF this] show ?thesis by auto
  qed
qed

lemma load_edges_append:
  "load_edges lit A (xs @ ys) =
     (case load_edges lit A xs of Inl e \<Rightarrow> Inl e | Inr A' \<Rightarrow> load_edges lit A' ys)"
  by (induction xs arbitrary: A) (auto split: sum.splits prod.splits)

lemma read_edge_short:
  "length (split_sp (strip line)) < 3 \<Longrightarrow> read_edge lit line = Inl (Exn IndexError [])"
  by (simp add: read_edge_def getitem_def Let_def)

lemma setitem_out:
  "shape A = (n, n) \<Longrightarrow>
   r < - int n \<or> int n \<le> r \<or> c < - int n \<or> int n \<le> c \<Longrightarrow>
   setitem A r c w = Inl (Exn IndexError [])"
  by (auto simp: setitem_def)

lemma loadflag_vertex_fails:
  assumes "tok \<in> set (split_sp (strip vline))" and "isl (py_float lit tok)"
  shows "loadflag lit (h0 # vline # rest) = Inl (Exn ValueError [])"
proof -
  from map_exn_fails [of tok "split_sp (strip vline)" "py_float lit", OF assms] obtain e
    where e: "map_exn (py_float lit) (split_sp (strip vline)) = Inl e"
    by (cases "map_exn (py_float lit) (split_sp (strip vline))") auto
  from map_exn_Inl [OF e] have "e = Exn ValueError []" by (auto dest: py_float_Inl)
  with e show ?thesis by (simp add: loadflag_unfold)
qed

lemma loadflag_first_bad_line:
  assumes ws: "map_exn (py_float lit) (split_sp (strip vline)) = Inr ws"
    and ts: "map_exn (read_edge lit) good = Inr ts"
    and rng: "list_all (\<lambda>t. in_range (length ws) (fst t) \<and> in_range (length ws) (fst (snd t))) ts"
    and bad: "length (split_sp (strip bad)) < 3 \<or>
       (\<exists>r c w. read_edge lit bad = Inr (r, c, w) \<and>
          (r < - int (length ws) \<or> int (length ws) \<le> r \<or>
           c < - int (length ws) \<or> int (length ws) \<le> c))"
  shows "loadflag lit (h0 # vline # h1 # good @ bad # rest) = Inl (Exn IndexError [])"
proof -
  let ?n = "length ws"
  let ?A0 = "setdiag (csr_matrix (?n, ?n)) ws"
  have sh: "shape ?A0 = (?n, ?n)" by simp
  let ?A1 = "?A0\<lparr>stored := fold (\<lambda>(k, v). AList.update k v) (map (cell ?n) ts) (stored ?A0)\<rparr>"
  have g: "load_edges lit ?A0 good = Inr ?A1"
    using sh ts rng by (rule load_edges_ok)
  have sh1: "shape ?A1 = (?n, ?n)" by simp
  have b: "load_edges lit ?A1 (bad # rest) = Inl (Exn IndexError [])"
    using bad
  proof
    assume "length (split_sp (strip bad)) < 3"
    then show ?thesis by (simp add: read_edge_short)
  next
    assume "\<exists>r c w. read_edge lit bad = Inr (r, c, w) \<and>
          (r < - int ?n \<or> int ?n \<le> r \<or> c < - int ?n \<or> int ?n \<le> c)"
    then obtain r c w where e: "read_edge lit bad = Inr (r, c, w)"
      and o: "r < - int ?n \<or> int ?n \<le> r \<or> c < - int ?n \<or> int ?n \<le> c"
      by blast
    from setitem_out [OF sh1 o] e show ?thesis by simp
  qed
  have "loadflag lit (h0 # vline # h1 # good @ bad # rest) =
      load_edges lit ?A0 (good @ bad # rest)"
    using ws by (simp add: loadflag_unfold)
  also have "\<dots> = Inl (Exn IndexError [])"
    by (simp only: load_edges_append g b sum.case)
  finally show ?thesis .
qed

lemma loadflag_fails:
  assumes "length f < 2 \<or>
     (\<exists>tok \<in> set (split_sp (strip (readline (drop 1 f)))). isl (py_float lit tok)) \<or>
     (\<exists>line \<in> set (drop 3 f). length (split_sp (strip line)) < 3) \<or>
     (\<exists>line \<in> set (drop 3 f). \<exists>r c w. read_edge lit line = Inr (r, c, w) \<and>
        (r < - int (length (split_sp (strip (readline (drop 1 f))))) \<or>
         int (length (split_sp (strip (readline (drop 1 f))))) \<le> r \<or>
         c < - int (length (split_sp (strip (readline (drop 1 f))))) \<or>
         int (length (split_sp (strip (readline (drop 1 f))))) \<le> c))"
  shows "isl (loadflag lit f)"
proof (rule ccontr)
  assume "\<not> isl (loadflag lit f)"
  then obtain A where "loadflag lit f = Inr A" by (cases "loadflag lit f") auto
  from loadflag_Inr [OF this] obtain h0 vline rest ws where f: "f = h0 # vline # rest"
    and ws: "map_exn (py_float lit) (split_sp (strip vline)) = Inr ws"
    and ok: "\<forall>line \<in> set (drop 1 rest). \<exists>t. read_edge lit line = Inr t \<and>
               in_range (length ws) (fst t) \<and> in_range (length ws) (fst (snd t))"
    by blast
  have n: "length (split_sp (strip vline)) = length ws"
    using map_exn_length [OF ws] by simp
  have v: "\<not> isl (py_float lit tok)" if "tok \<in> set (split_sp (strip vline))" for tok
    using map_exn_Inr_all [OF ws that] by auto
  from assms f v have "(\<exists>line \<in> set (drop 1 rest). length (split_sp (strip line)) < 3) \<or>
     (\<exists>line \<in> set (drop 1 rest). \<exists>r c w. read_edge lit line = Inr (r, c, w) \<and>
        (r < - int (length ws) \<or> int (length ws) \<le> r \<or>
         c < - int (length ws) \<or> int (length ws) \<le> c))"
    by (auto simp: readline_def numeral_3_eq_3 n)
  then show False
  proof
    assume "\<exists>line \<in> set (drop 1 rest). length (split_sp (strip line)) < 3"
    then obtain line where "line \<in> set (drop 1 rest)" "length (split_sp (strip line)) < 3"
      by blast
    with ok read_edge_tokens [of lit line] show False by fastforce
  next
    assume "\<exists>line \<in> set (drop 1 rest). \<exists>r c w. read_edge lit line = Inr (r, c, w) \<and>
        (r < - int (length ws) \<or> int (length ws) \<le> r \<or>
         c < - int (length ws) \<or> int (length ws) \<le> c)"
    then obtain line r c w where "line \<in> set (drop 1 rest)"
      "read_edge lit line = Inr (r, c, w)"
      "r < - int (length ws) \<or> int (length ws) \<le> r \<or>
         c < - int (length ws) \<or> int (length ws) \<le> c"
      by blast
    with ok show False by (fastforce simp: in_range_def)
  qed
qed

text \<open>
  Claim C6, as the code has it. \<open>loadflag\<close> raises an exception, of class
  \<open>StopIteration\<close>, \<open>ValueError\<close>, \<open>IndexError\<close> or \<open>OverflowError\<close>, when the file
  has fewer than two lines (no vertex line), when a token of its second line is not a
  float (as when an edge header stands where the vertex line should), when an edge line
  has fewer than three tokens, and when an edge line reads as a triple with a row or
  column index below \<open>-n\<close> or from \<open>n\<close> on, \<open>n\<close> being the number of tokens of the
  vertex line. The class is \<open>StopIteration\<close> for the empty file, \<open>ValueError\<close> for a
  file of one line and for a second line with a token that is not a float, and
  \<open>IndexError\<close> when the first edge line that does not load has fewer than three tokens
  or such an index. When every edge line reads as a triple with its indices from \<open>-n\<close>
  to \<open>n - 1\<close>, \<open>loadflag\<close> returns a matrix: a negative index \<open>r\<close> addresses the row
  or column \<open>r + n\<close>, the last triple that addresses a cell gives its value, and the
  other diagonal cells hold the vertex weights.
\<close>

theorem loadflag_rejects:
  "((length f < 2 \<or>
     (\<exists>tok \<in> set (split_sp (strip (readline (drop 1 f)))). isl (py_float lit tok)) \<or>
     (\<exists>line \<in> set (drop 3 f). length (split_sp (strip line)) < 3) \<or>
     (\<exists>line \<in> set (drop 3 f). \<exists>r c w. read_edge lit line = Inr (r, c, w) \<and>
        (r < - int (length (split_sp (strip (readline (drop 1 f))))) \<or>
         int (length (split_sp (strip (readline (drop 1 f))))) \<le> r \<or>
         c < - int (length (split_sp (strip (readline (drop 1 f))))) \<or>
         int (length (split_sp (strip (readline (drop 1 f))))) \<le> c))) \<longrightarrow>
    (\<exists>cls. loadflag lit f = Inl (Exn cls []) \<and>
       (cls = StopIteration \<or> cls = ValueError \<or> cls = IndexError \<or>
        cls = OverflowError))) \<and>
   loadflag lit [] = Inl (Exn StopIteration []) \<and>
   loadflag lit [h0] = Inl (Exn ValueError []) \<and>
   ((\<exists>tok \<in> set (split_sp (strip vline')). isl (py_float lit tok)) \<longrightarrow>
    loadflag lit (h0 # vline' # rest') = Inl (Exn ValueError [])) \<and>
   (map_exn (py_float lit) (split_sp (strip vline)) = Inr ws \<and>
    map_exn (read_edge lit) good = Inr ts \<and>
    (\<forall>t \<in> set ts. - int (length ws) \<le> fst t \<and> fst t < int (length ws) \<and>
                   - int (length ws) \<le> fst (snd t) \<and> fst (snd t) < int (length ws)) \<and>
    (length (split_sp (strip bad)) < 3 \<or>
     (\<exists>r c w. read_edge lit bad = Inr (r, c, w) \<and>
        (r < - int (length ws) \<or> int (length ws) \<le> r \<or>
         c < - int (length ws) \<or> int (length ws) \<le> c))) \<longrightarrow>
    loadflag lit (h0 # vline # h1 # good @ bad # rest) = Inl (Exn IndexError [])) \<and>
   (map_exn (py_float lit) (split_sp (strip vline)) = Inr ws \<and>
    map_exn (read_edge lit) edge_lines = Inr ts' \<and>
    (\<forall>t \<in> set ts'. - int (length ws) \<le> fst t \<and> fst t < int (length ws) \<and>
                    - int (length ws) \<le> fst (snd t) \<and> fst (snd t) < int (length ws)) \<longrightarrow>
    (\<exists>A. loadflag lit (h0 # vline # h1 # edge_lines) = Inr A \<and>
       shape A = (length ws, length ws) \<and>
       (\<forall>i j. map_of (stored A) (i, j) =
          (case map_of
                  (rev (map (\<lambda>t. ((nat (if fst t < 0 then fst t + int (length ws) else fst t),
                                     nat (if fst (snd t) < 0
                                          then fst (snd t) + int (length ws)
                                          else fst (snd t))),
                                    snd (snd t)))
                         ts'))
                  (i, j) of
             Some v \<Rightarrow> Some v
           | None \<Rightarrow> if i = j \<and> i < length ws then Some (ws ! i) else None))))"
proof (intro conjI impI)
  assume a: "length f < 2 \<or>
     (\<exists>tok \<in> set (split_sp (strip (readline (drop 1 f)))). isl (py_float lit tok)) \<or>
     (\<exists>line \<in> set (drop 3 f). length (split_sp (strip line)) < 3) \<or>
     (\<exists>line \<in> set (drop 3 f). \<exists>r c w. read_edge lit line = Inr (r, c, w) \<and>
        (r < - int (length (split_sp (strip (readline (drop 1 f))))) \<or>
         int (length (split_sp (strip (readline (drop 1 f))))) \<le> r \<or>
         c < - int (length (split_sp (strip (readline (drop 1 f))))) \<or>
         int (length (split_sp (strip (readline (drop 1 f))))) \<le> c))"
  from loadflag_fails [OF a] obtain e where e: "loadflag lit f = Inl e"
    by (cases "loadflag lit f") auto
  from loadflag_Inl [OF e] e
  show "\<exists>cls. loadflag lit f = Inl (Exn cls []) \<and>
       (cls = StopIteration \<or> cls = ValueError \<or> cls = IndexError \<or>
        cls = OverflowError)"
    by auto
next
  show "loadflag lit [] = Inl (Exn StopIteration [])"
    by (simp add: loadflag_def)
next
  show "loadflag lit [h0] = Inl (Exn ValueError [])"
    by (simp add: loadflag_def readline_def strip_def py_float_empty)
next
  assume "\<exists>tok \<in> set (split_sp (strip vline')). isl (py_float lit tok)"
  then obtain tok where "tok \<in> set (split_sp (strip vline'))" "isl (py_float lit tok)"
    by blast
  then show "loadflag lit (h0 # vline' # rest') = Inl (Exn ValueError [])"
    by (rule loadflag_vertex_fails)
next
  assume a: "map_exn (py_float lit) (split_sp (strip vline)) = Inr ws \<and>
    map_exn (read_edge lit) good = Inr ts \<and>
    (\<forall>t \<in> set ts. - int (length ws) \<le> fst t \<and> fst t < int (length ws) \<and>
                   - int (length ws) \<le> fst (snd t) \<and> fst (snd t) < int (length ws)) \<and>
    (length (split_sp (strip bad)) < 3 \<or>
     (\<exists>r c w. read_edge lit bad = Inr (r, c, w) \<and>
        (r < - int (length ws) \<or> int (length ws) \<le> r \<or>
         c < - int (length ws) \<or> int (length ws) \<le> c)))"
  then have ws: "map_exn (py_float lit) (split_sp (strip vline)) = Inr ws"
    and ts: "map_exn (read_edge lit) good = Inr ts"
    and bad: "length (split_sp (strip bad)) < 3 \<or>
     (\<exists>r c w. read_edge lit bad = Inr (r, c, w) \<and>
        (r < - int (length ws) \<or> int (length ws) \<le> r \<or>
         c < - int (length ws) \<or> int (length ws) \<le> c))"
    by simp_all
  from a have rng: "list_all (\<lambda>t. in_range (length ws) (fst t) \<and>
      in_range (length ws) (fst (snd t))) ts"
    by (simp add: list_all_iff in_range_def)
  from ws ts rng bad
  show "loadflag lit (h0 # vline # h1 # good @ bad # rest) = Inl (Exn IndexError [])"
    by (rule loadflag_first_bad_line)
next
  assume a: "map_exn (py_float lit) (split_sp (strip vline)) = Inr ws \<and>
    map_exn (read_edge lit) edge_lines = Inr ts' \<and>
    (\<forall>t \<in> set ts'. - int (length ws) \<le> fst t \<and> fst t < int (length ws) \<and>
                    - int (length ws) \<le> fst (snd t) \<and> fst (snd t) < int (length ws))"
  then have ws: "map_exn (py_float lit) (split_sp (strip vline)) = Inr ws"
    and ts: "map_exn (read_edge lit) (drop 1 (h1 # edge_lines)) = Inr ts'"
    by simp_all
  from a have rng: "list_all (\<lambda>t. in_range (length ws) (fst t) \<and>
      in_range (length ws) (fst (snd t))) ts'"
    by (simp add: list_all_iff in_range_def)
  have c: "cell (length ws) =
      (\<lambda>t. ((nat (if fst t < 0 then fst t + int (length ws) else fst t),
              nat (if fst (snd t) < 0 then fst (snd t) + int (length ws) else fst (snd t))),
             snd (snd t)))"
    by (rule ext) (simp add: cell_def wrap_index_def)
  from loadflag_ok [OF ws ts rng, of h0]
  show "\<exists>A. loadflag lit (h0 # vline # h1 # edge_lines) = Inr A \<and>
       shape A = (length ws, length ws) \<and>
       (\<forall>i j. map_of (stored A) (i, j) =
          (case map_of
                  (rev (map (\<lambda>t. ((nat (if fst t < 0 then fst t + int (length ws) else fst t),
                                     nat (if fst (snd t) < 0
                                          then fst (snd t) + int (length ws)
                                          else fst (snd t))),
                                    snd (snd t)))
                         ts'))
                  (i, j) of
             Some v \<Rightarrow> Some v
           | None \<Rightarrow> if i = j \<and> i < length ws then Some (ws ! i) else None))"
    unfolding c by blast
qed

theorem loadflag_rejects_witness:
  "read_edge lit_sample ''0 2 5.0'' = Inr (0, 2, Finite 5) \<and>
   loadflag lit_sample [''dim 0'', ''1.0 2.0'', ''dim 1'', ''0 2 5.0''] =
     Inl (Exn IndexError []) \<and>
   isl (py_float lit_sample ''dim'') \<and>
   loadflag lit_sample [''dim 0'', ''dim 1''] = Inl (Exn ValueError []) \<and>
   map_exn (py_float lit_sample) (split_sp (strip ''1.0 2.0'')) = Inr [Finite 1, Finite 2] \<and>
   map_exn (read_edge lit_sample) [''0 1 5.0''] = Inr [(0, 1, Finite 5)] \<and>
   length (split_sp (strip ''0 1'')) < 3 \<and>
   loadflag lit_sample [''dim 0'', ''1.0 2.0'', ''dim 1'', ''0 1 5.0'', ''0 1''] =
     Inl (Exn IndexError []) \<and>
   map_exn (read_edge lit_sample) [''-1 0 5.0''] = Inr [(- 1, 0, Finite 5)] \<and>
   (\<exists>A. loadflag lit_sample [''dim 0'', ''1.0 2.0'', ''dim 1'', ''-1 0 5.0''] = Inr A \<and>
      shape A = (2, 2) \<and>
      map_of (stored A) (1, 0) = Some (Finite 5) \<and>
      map_of (stored A) (1, 1) = Some (Finite 2) \<and>
      map_of (stored A) (0, 1) = None)"
proof -
  note T = loadflag_rejects [where lit = lit_sample
      and f = "[''dim 0'', ''1.0 2.0'', ''dim 1'', ''0 2 5.0'']"
      and ?h0.0 = "''dim 0''" and ?h1.0 = "''dim 1''"
      and vline' = "''dim 1''" and rest' = "[]"
      and vline = "''1.0 2.0''" and ws = "[Finite 1, Finite 2]"
      and good = "[''0 1 5.0'']" and ts = "[(0, 1, Finite 5)]"
      and bad = "''0 1''" and rest = "[]"
      and edge_lines = "[''-1 0 5.0'']" and ts' = "[(- 1, 0, Finite 5)]"]
  have e: "read_edge lit_sample ''0 2 5.0'' = Inr (0, 2, Finite 5)"
    by code_simp
  have n: "length (split_sp (strip (readline [''1.0 2.0'', ''dim 1'', ''0 2 5.0'']))) = 2"
    by code_simp
  have d: "isl (py_float lit_sample ''dim'')"
    by code_simp
  have v: "split_sp (strip ''dim 1'') = [''dim'', ''1'']"
    by code_simp
  have ws: "map_exn (py_float lit_sample) (split_sp (strip ''1.0 2.0'')) =
      Inr [Finite 1, Finite 2]"
    by code_simp
  have ts: "map_exn (read_edge lit_sample) [''0 1 5.0''] = Inr [(0, 1, Finite 5)]"
    by code_simp
  have b: "length (split_sp (strip ''0 1'')) < 3"
    by code_simp
  have ts': "map_exn (read_edge lit_sample) [''-1 0 5.0''] = Inr [(- 1, 0, Finite 5)]"
    by code_simp
  from T [THEN conjunct1] e n
  obtain cls where "loadflag lit_sample [''dim 0'', ''1.0 2.0'', ''dim 1'', ''0 2 5.0''] =
      Inl (Exn cls [])"
    by (auto simp: numeral_3_eq_3)
  moreover have "loadflag lit_sample [''dim 0'', ''1.0 2.0'', ''dim 1'', ''0 2 5.0''] =
      Inl (Exn IndexError [])"
    by code_simp
  ultimately have c1: "loadflag lit_sample [''dim 0'', ''1.0 2.0'', ''dim 1'', ''0 2 5.0''] =
      Inl (Exn IndexError [])"
    by simp
  from T [THEN conjunct2, THEN conjunct2, THEN conjunct2, THEN conjunct1] d v
  have c4: "loadflag lit_sample [''dim 0'', ''dim 1''] = Inl (Exn ValueError [])"
    by simp
  from T [THEN conjunct2, THEN conjunct2, THEN conjunct2, THEN conjunct2, THEN conjunct1]
    ws ts b
  have c5: "loadflag lit_sample [''dim 0'', ''1.0 2.0'', ''dim 1'', ''0 1 5.0'', ''0 1''] =
      Inl (Exn IndexError [])"
    by simp
  from T [THEN conjunct2, THEN conjunct2, THEN conjunct2, THEN conjunct2, THEN conjunct2]
    ws ts'
  obtain A where A: "loadflag lit_sample [''dim 0'', ''1.0 2.0'', ''dim 1'', ''-1 0 5.0''] =
      Inr A" "shape A = (2, 2)"
    and m: "\<And>i j. map_of (stored A) (i, j) =
      (case map_of (rev (map (\<lambda>t. ((nat (if fst t < 0 then fst t + int 2 else fst t),
                                       nat (if fst (snd t) < 0 then fst (snd t) + int 2
                                            else fst (snd t))),
                                      snd (snd t)))
                           [(- 1, 0, Finite 5)])) (i, j) of
         Some v \<Rightarrow> Some v
       | None \<Rightarrow> if i = j \<and> i < 2 then Some ([Finite 1, Finite 2] ! i) else None)"
    by auto
  have "map_of (stored A) (1, 0) = Some (Finite 5)"
    "map_of (stored A) (1, 1) = Some (Finite 2)"
    "map_of (stored A) (0, 1) = None"
    by (simp_all add: m)
  with A e d ws ts b ts' c1 c4 c5 show ?thesis by blast
qed

text \<open>
  The claim C6 as stated fails for the negative indices from \<open>-n\<close> to \<open>-1\<close>: they lie
  outside \<open>[0, n)\<close>, and the assignment accepts them, counting from the end. With two
  vertices the edge line \<open>-1 0 5.0\<close> is read as the triple \<open>(-1, 0, 5)\<close> and stores 5
  in the cell \<open>(1, 0)\<close>.
\<close>

theorem negative_index_accepted_counterexample:
  "read_edge lit_sample ''-1 0 5.0'' = Inr (- 1, 0, Finite 5) \<and>
   loadflag lit_sample [''dim 0'', ''1.0 2.0'', ''dim 1'', ''-1 0 5.0''] =
     Inr \<lparr>dtype = Floating 64, shape = (2, 2),
          stored = [((0, 0), Finite 1), ((1, 1), Finite 2), ((1, 0), Finite 5)]\<rparr>"
  by code_simp

text \<open>
  Claim C10. Let every edge line read as a triple whose indices the assignment accepts,
  and let \<open>(r, c, w)\<close> be a triple whose row and column address the same vertex, with no
  later triple addressing that diagonal cell. Then \<open>loadflag\<close> returns a matrix, and
  the diagonal entry of that vertex is \<open>w\<close>, whatever the vertex line gave.
\<close>

theorem loadflag_self_loop:
  assumes ws: "map_exn (py_float lit) (split_sp (strip vline)) = Inr ws"
    and ts: "map_exn (read_edge lit) edge_lines = Inr (ts1 @ (r, c, w) # ts2)"
    and rng: "\<forall>t \<in> set (ts1 @ (r, c, w) # ts2).
               - int (length ws) \<le> fst t \<and> fst t < int (length ws) \<and>
               - int (length ws) \<le> fst (snd t) \<and> fst (snd t) < int (length ws)"
    and loop: "wrap_index (length ws) r = wrap_index (length ws) c"
    and last: "\<forall>t \<in> set ts2. fst (cell (length ws) t) \<noteq>
                 (wrap_index (length ws) r, wrap_index (length ws) r)"
  shows "\<exists>A. loadflag lit (h0 # vline # h1 # edge_lines) = Inr A \<and>
           diagonal A ! wrap_index (length ws) r = w"
proof -
  let ?n = "length ws"
  let ?i = "wrap_index ?n r"
  let ?ts = "ts1 @ (r, c, w) # ts2"
  have rng': "list_all (\<lambda>t. in_range ?n (fst t) \<and> in_range ?n (fst (snd t))) ?ts"
    using rng by (simp add: list_all_iff in_range_def)
  from ts have ts': "map_exn (read_edge lit) (drop 1 (h1 # edge_lines)) = Inr ?ts" by simp
  from loadflag_ok [OF ws ts' rng', of h0] obtain A
    where l: "loadflag lit (h0 # vline # h1 # edge_lines) = Inr A"
      and sh: "shape A = (?n, ?n)"
      and m: "\<And>i j. map_of (stored A) (i, j) =
              (case map_of (rev (map (cell ?n) ?ts)) (i, j) of
                 Some v \<Rightarrow> Some v
               | None \<Rightarrow> if i = j \<and> i < ?n then Some (ws ! i) else None)"
    by blast
  have i: "?i < ?n"
    using rng by (intro wrap_index_less) (simp add: in_range_def)
  have "(?i, ?i) \<notin> fst ` set (map (cell ?n) ts2)"
    using last by auto
  then have "map_of (rev (map (cell ?n) ts2)) (?i, ?i) = None"
    by (rule map_of_rev_absent)
  then have "map_of (rev (map (cell ?n) ?ts)) (?i, ?i) = Some w"
    using loop by (simp add: map_add_def cell_def)
  then have "map_of (stored A) (?i, ?i) = Some w"
    by (simp add: m)
  then have "diagonal A ! ?i = w"
    by (simp add: diagonal_nth [OF sh i])
  with l show ?thesis by blast
qed

theorem loadflag_self_loop_witness:
  "map_exn (py_float lit_sample) (split_sp (strip ''1.0 2.0'')) = Inr [Finite 1, Finite 2] \<and>
   map_exn (read_edge lit_sample) [''0 1 0.0'', ''1 1 5.0''] =
     Inr ([(0, 1, Finite 0)] @ (1, 1, Finite 5) # []) \<and>
   wrap_index (length [Finite 1, Finite 2]) 1 = 1 \<and>
   (\<exists>A. loadflag lit_sample [''dim 0'', ''1.0 2.0'', ''dim 1'', ''0 1 0.0'', ''1 1 5.0''] = Inr A \<and>
      diagonal A ! 1 = Finite 5)"
proof -
  have ws: "map_exn (py_float lit_sample) (split_sp (strip ''1.0 2.0'')) =
      Inr [Finite 1, Finite 2]"
    by code_simp
  have ts: "map_exn (read_edge lit_sample) [''0 1 0.0'', ''1 1 5.0''] =
      Inr ([(0, 1, Finite 0)] @ (1, 1, Finite 5) # [])"
    by code_simp
  have w: "wrap_index (length [Finite 1, Finite 2]) 1 = 1"
    by (simp add: wrap_index_def)
  from loadflag_self_loop [OF ws ts, of "''dim 0''" "''dim 1''"] ws ts w show ?thesis
    by (simp add: wrap_index_def)
qed

subsection \<open>What saveflag writes\<close>









text \<open>
  Claim C3 on the matrix \<open>flag_sample\<close>, which stores the zero-weight edge \<open>(0, 1)\<close>:
  the two headers and the line of the diagonal are as the claim says, but there is no line
  for the edge \<open>(0, 1)\<close>, and the two diagonal entries have an edge line each.
\<close>

theorem saveflag_drops_zero_edge:
  "map_of (stored flag_sample) (0, 1) = Some (Finite 0) \<and>
   saveflag fmt_e_sample flag_sample =
     [''dim 0'',
      ''1.000000000000000000e+00 2.000000000000000000e+00'',
      ''dim 1'',
      ''0 0 1.000000000000000000e+00'',
      ''1 0 5.000000000000000000e+00'',
      ''1 1 2.000000000000000000e+00'']"
  by code_simp

text \<open>
  Claim C1 on the matrix \<open>flag_sample\<close>, which is what \<open>loadflag\<close> returns for a
  file with the edge lines \<open>1 0 5.0\<close> and \<open>0 1 0.0\<close>: saved and loaded again, the
  matrix has its vertex weights and the edge \<open>(1, 0)\<close>, and has lost the zero-weight
  edge \<open>(0, 1)\<close>.
\<close>

theorem roundtrip_loses_zero_edge:
  "loadflag lit_sample [''dim 0'', ''1.0 2.0'', ''dim 1'', ''1 0 5.0'', ''0 1 0.0''] =
     Inr flag_sample \<and>
   map_of (stored flag_sample) (0, 1) = Some (Finite 0) \<and>
   loadflag lit_sample (saveflag fmt_e_sample flag_sample) =
     Inr \<lparr>dtype = Floating 64, shape = (2, 2),
          stored = [((0, 0), Finite 1), ((1, 1), Finite 2), ((1, 0), Finite 5)]\<rparr>"
  by code_simp

end
